theory Spec2Isabelle
  imports Complex_Main
begin

section \<open>float64\<close>

text \<open>
  A \<open>float64\<close> is its numeric value when it is finite, or one of the infinities, or NaN.
  The finite values a program holds are the binary64 numbers; the sign of a zero is not
  kept (Go's comparisons do not see it). \<open>fl\<close> rounds an exact result to the nearest
  binary64 number, a tie to the one with even significand: 53 significant bits, spacing
  \<open>2 ^ - 1074\<close> below \<open>2 ^ - 1022\<close>, an infinity from \<open>2 ^ 1024\<close> on. Every operation
  rounds its own result; no two operations are fused.
\<close>

datatype float64 = Finite rat | PosInf | NegInf | NaN

definition pow2 :: "int \<Rightarrow> rat" where
  "pow2 e = (if 0 \<le> e then 2 ^ nat e else 1 / 2 ^ nat (- e))"

text \<open>
  The binary exponent of a positive number, found by halving or doubling; it is not
  looked for beyond the range of the format.
\<close>

fun expo_up :: "nat \<Rightarrow> rat \<Rightarrow> int \<Rightarrow> int" where
  "expo_up 0 x e = e"
| "expo_up (Suc n) x e = (if 2 \<le> x then expo_up n (x / 2) (e + 1) else e)"

fun expo_down :: "nat \<Rightarrow> rat \<Rightarrow> int \<Rightarrow> int" where
  "expo_down 0 x e = e"
| "expo_down (Suc n) x e = (if x < 1 then expo_down n (x * 2) (e - 1) else e)"

definition exponent :: "rat \<Rightarrow> int" where
  "exponent x = (if 1 \<le> x then expo_up 1024 x 0 else expo_down 1022 x 0)"

definition round_even :: "rat \<Rightarrow> int" where
  "round_even r =
    (let n = \<lfloor>r\<rfloor>; d = r - of_int n
     in if d < 1 / 2 then n else if 1 / 2 < d then n + 1 else if even n then n else n + 1)"

definition fl :: "rat \<Rightarrow> float64" where
  "fl x =
    (if x = 0 then Finite 0
     else (let e = exponent \<bar>x\<bar>;
               ulp = pow2 (e - 52);
               y = of_int (round_even (x / ulp)) * ulp
           in if e < 1023 then Finite y
              else if pow2 1024 \<le> \<bar>y\<bar> then (if 0 < x then PosInf else NegInf)
              else Finite y))"

fun fsign :: "float64 \<Rightarrow> int" where
  "fsign (Finite x) = (if 0 < x then 1 else if x < 0 then - 1 else 0)"
| "fsign PosInf = 1"
| "fsign NegInf = - 1"
| "fsign NaN = 0"

fun fneg :: "float64 \<Rightarrow> float64" where
  "fneg (Finite x) = Finite (- x)"
| "fneg PosInf = NegInf"
| "fneg NegInf = PosInf"
| "fneg NaN = NaN"

fun fmul :: "float64 \<Rightarrow> float64 \<Rightarrow> float64" where
  "fmul (Finite x) (Finite y) = fl (x * y)"
| "fmul NaN b = NaN"
| "fmul a NaN = NaN"
| "fmul a b = (let s = fsign a * fsign b in if s = 0 then NaN else if 0 < s then PosInf else NegInf)"

fun fadd :: "float64 \<Rightarrow> float64 \<Rightarrow> float64" where
  "fadd (Finite x) (Finite y) = fl (x + y)"
| "fadd NaN b = NaN"
| "fadd a NaN = NaN"
| "fadd (Finite x) b = b"
| "fadd a (Finite y) = a"
| "fadd PosInf PosInf = PosInf"
| "fadd NegInf NegInf = NegInf"
| "fadd a b = NaN"

text \<open>Division; a zero divisor counts as positive. No divisor of this program is zero.\<close>

fun fdiv :: "float64 \<Rightarrow> float64 \<Rightarrow> float64" where
  "fdiv (Finite x) (Finite y) =
     (if y = 0 then (if x = 0 then NaN else if 0 < x then PosInf else NegInf) else fl (x / y))"
| "fdiv NaN b = NaN"
| "fdiv a NaN = NaN"
| "fdiv (Finite x) b = Finite 0"
| "fdiv a (Finite y) = (if 0 \<le> y then a else fneg a)"
| "fdiv a b = NaN"

text \<open>The comparisons \<open>a > b\<close>, \<open>a >= b\<close> and \<open>a == b\<close>; each is false when an operand is NaN.\<close>

fun fgt :: "float64 \<Rightarrow> float64 \<Rightarrow> bool" where
  "fgt (Finite x) (Finite y) = (y < x)"
| "fgt NaN b = False"
| "fgt a NaN = False"
| "fgt PosInf PosInf = False"
| "fgt PosInf b = True"
| "fgt NegInf b = False"
| "fgt (Finite x) PosInf = False"
| "fgt (Finite x) NegInf = True"

fun fge :: "float64 \<Rightarrow> float64 \<Rightarrow> bool" where
  "fge (Finite x) (Finite y) = (y \<le> x)"
| "fge NaN b = False"
| "fge a NaN = False"
| "fge PosInf b = True"
| "fge NegInf NegInf = True"
| "fge NegInf b = False"
| "fge (Finite x) PosInf = False"
| "fge (Finite x) NegInf = True"

fun feq :: "float64 \<Rightarrow> float64 \<Rightarrow> bool" where
  "feq (Finite x) (Finite y) = (x = y)"
| "feq PosInf PosInf = True"
| "feq NegInf NegInf = True"
| "feq a b = False"

text \<open>\<open>math.Round\<close>: the nearest integer, a half going away from zero.\<close>

definition round_half_away :: "rat \<Rightarrow> int" where
  "round_half_away x = (if 0 \<le> x then \<lfloor>x + 1 / 2\<rfloor> else - \<lfloor>- x + 1 / 2\<rfloor>)"

fun math_Round :: "float64 \<Rightarrow> float64" where
  "math_Round (Finite x) = fl (of_int (round_half_away x))"
| "math_Round a = a"

text \<open>The conversion \<open>float64(n)\<close> of an integer.\<close>

definition float64_of_int :: "int \<Rightarrow> float64" where
  "float64_of_int n = fl (of_int n)"

section \<open>Data model (package modules)\<close>

text \<open>
  Values of the empty interface type are a tagged union; a type assertion
  \<open>x.(float64)\<close> succeeds on \<open>VFloat\<close> only. Go maps are partial functions; a nil map is
  the empty one.
\<close>

datatype go_value = VNil | VBool bool | VInt int | VFloat float64 | VString string

record PortResult =
  Port :: int
  Protocol :: string
  State :: string
  Service :: string
  port_Version :: string

record ServiceResult =
  svc_Name :: string
  svc_Version :: string
  Banner :: string
  svc_Metadata :: "string \<rightharpoonup> go_value"

record WebAppResult =
  URL :: string
  StatusCode :: int
  Title :: string
  Technology :: "string list"
  Headers :: "string \<rightharpoonup> string"
  Endpoints :: "string list"
  web_Metadata :: "string \<rightharpoonup> go_value"

record HostResult =
  IP :: string
  Hostname :: string
  Ports :: "PortResult list"
  Services :: "ServiceResult list"
  WebApps :: "WebAppResult list"

record Vulnerability =
  ID :: string
  vuln_Name :: string
  vuln_Description :: string
  Severity :: string
  CVSS :: float64
  CVE :: string
  vuln_Host :: string
  vuln_Port :: int
  vuln_Service :: string
  vuln_URL :: string
  Evidence :: string
  PoC :: string
  References :: "string list"
  RiskScore :: float64
  Exploitable :: bool
  Metadata :: "string \<rightharpoonup> go_value"

record PatchRecommendation =
  VulnID :: string
  patch_Type :: string
  Language :: string
  Framework :: string
  Diff :: string
  WAFRule :: string
  patch_Description :: string
  Confidence :: float64

record ScanSummary =
  TotalHosts :: int
  AliveHosts :: int
  TotalPorts :: int
  OpenPorts :: int
  TotalVulns :: int
  CriticalVulns :: int
  HighVulns :: int
  MediumVulns :: int
  LowVulns :: int
  ExploitableVulns :: int
  HighRiskVulns :: int
  ScanDuration :: string
  sum_RiskScore :: float64
  ModulesExecuted :: "string list"

record ScanResults =
  Hosts :: "HostResult list"
  Vulnerabilities :: "Vulnerability list"
  Patches :: "PatchRecommendation list"
  BleedingEdge :: "string \<rightharpoonup> go_value"
  Summary :: ScanSummary

record ScanConfig =
  cfg_Targets :: "string list"
  Threads :: int
  RateLimit :: int
  Deep :: bool
  cfg_BleedingEdge :: bool
  Stealth :: bool
  Aggressive :: bool
  NoThrottle :: bool

text \<open>
  A log line carries its level, the value of the logger's \<open>module\<close> field (empty for
  a logger without it) and the message, without the pictographs some messages start
  with. Durations are not recorded. The \<open>Logger\<close> of a scan is kept as the lines written
  through it.
\<close>

datatype level = InfoLevel | WarnLevel | ErrorLevel | DebugLevel

datatype log_entry = Log level string string

record Scan =
  scan_ID :: string
  Targets :: "string list"
  Config :: ScanConfig
  Results :: ScanResults
  Context :: "string \<rightharpoonup> go_value"
  Logger :: "log_entry list"

text \<open>\<open>Scan.GetContext\<close>: the value stored under the key and whether it exists.\<close>

definition GetContext :: "Scan \<Rightarrow> string \<Rightarrow> go_value \<times> bool" where
  "GetContext s key = (case Context s key of None \<Rightarrow> (VNil, False) | Some v \<Rightarrow> (v, True))"

text \<open>The other helper methods of \<open>Scan\<close>; each runs under the lock of what it changes.\<close>

definition AddHost :: "HostResult \<Rightarrow> Scan \<Rightarrow> Scan" where
  "AddHost host s = s \<lparr> Results := (Results s) \<lparr> Hosts := Hosts (Results s) @ [host] \<rparr> \<rparr>"

definition AddVulnerability :: "Vulnerability \<Rightarrow> Scan \<Rightarrow> Scan" where
  "AddVulnerability vuln s =
     s \<lparr> Results := (Results s) \<lparr> Vulnerabilities := Vulnerabilities (Results s) @ [vuln] \<rparr> \<rparr>"

definition AddPatch :: "PatchRecommendation \<Rightarrow> Scan \<Rightarrow> Scan" where
  "AddPatch patch s = s \<lparr> Results := (Results s) \<lparr> Patches := Patches (Results s) @ [patch] \<rparr> \<rparr>"

definition SetBleedingEdgeResult :: "string \<Rightarrow> go_value \<Rightarrow> Scan \<Rightarrow> Scan" where
  "SetBleedingEdgeResult moduleID result s =
     s \<lparr> Results := (Results s) \<lparr> BleedingEdge := (BleedingEdge (Results s))(moduleID \<mapsto> result) \<rparr> \<rparr>"

definition SetContext :: "string \<Rightarrow> go_value \<Rightarrow> Scan \<Rightarrow> Scan" where
  "SetContext key v s = s \<lparr> Context := (Context s)(key \<mapsto> v) \<rparr>"

section \<open>Scoring engine (package scoring)\<close>

record Engine =
  severityWeights :: "string \<rightharpoonup> float64"
  exploitWeight :: float64
  driftWeight :: float64
  llmWeight :: float64

text \<open>The constants \<open>0.2\<close> and \<open>0.8\<close> are the binary64 numbers nearest to them.\<close>

definition NewEngine :: Engine where
  "NewEngine = \<lparr> severityWeights =
       [''critical'' \<mapsto> Finite 10, ''high'' \<mapsto> Finite (15 / 2), ''medium'' \<mapsto> Finite 5,
        ''low'' \<mapsto> Finite (5 / 2), ''info'' \<mapsto> Finite 1],
     exploitWeight = Finite (3 / 2), driftWeight = fl (1 / 5), llmWeight = fl (1 / 5) \<rparr>"

text \<open>Indexing a Go map of floats: a missing key reads as the zero value.\<close>

definition index_float :: "(string \<rightharpoonup> float64) \<Rightarrow> string \<Rightarrow> float64" where
  "index_float m k = (case m k of None \<Rightarrow> Finite 0 | Some w \<Rightarrow> w)"

definition CalculateRiskScore :: "Engine \<Rightarrow> Vulnerability \<Rightarrow> Scan \<Rightarrow> float64" where
  "CalculateRiskScore e vuln scan =
    (let baseSeverity0 = index_float (severityWeights e) (Severity vuln);
         baseSeverity = (if feq baseSeverity0 (Finite 0) then Finite 1 else baseSeverity0);
         exploitCoeff = (if Exploitable vuln then exploitWeight e else Finite 1);
         driftFactor = (case GetContext scan ''supply_chain_drift'' of
                          (VFloat drift, True) \<Rightarrow> fadd (Finite 1) (fmul drift (driftWeight e))
                        | _ \<Rightarrow> Finite 1);
         llmConfidence = (case Metadata vuln ''llm_confidence'' of
                            Some (VFloat conf) \<Rightarrow> fadd (fl (4 / 5)) (fmul conf (llmWeight e))
                          | _ \<Rightarrow> Finite 1);
         score0 = fmul (fmul (fmul baseSeverity exploitCoeff) driftFactor) llmConfidence;
         score = (if fgt score0 (Finite 100) then Finite 100 else score0)
     in fdiv (math_Round (fmul score (Finite 100))) (Finite 100))"

text \<open>
  The loop of \<open>CalculateOverallRiskScore\<close>: one step per vulnerability on the
  accumulators \<open>(totalScore, criticalCount, highCount)\<close>.
\<close>

fun overall_loop ::
  "Vulnerability list \<Rightarrow> float64 \<times> int \<times> int \<Rightarrow> float64 \<times> int \<times> int" where
  "overall_loop [] acc = acc"
| "overall_loop (vuln # vulns) (totalScore, criticalCount, highCount) =
     overall_loop vulns
       (fadd totalScore (RiskScore vuln),
        (if Severity vuln = ''critical'' then criticalCount + 1 else criticalCount),
        (if Severity vuln = ''critical'' then highCount
         else if Severity vuln = ''high'' then highCount + 1 else highCount))"

definition CalculateOverallRiskScore :: "Engine \<Rightarrow> Vulnerability list \<Rightarrow> float64" where
  "CalculateOverallRiskScore e vulns =
    (if length vulns = 0 then Finite 0
     else (case overall_loop vulns (Finite 0, 0, 0) of (totalScore, criticalCount, highCount) \<Rightarrow>
       let avgScore = fdiv totalScore (float64_of_int (int (length vulns)));
           criticalBonus = fmul (float64_of_int criticalCount) (Finite 5);
           highBonus = fmul (float64_of_int highCount) (Finite 2);
           overallScore0 = fadd (fadd avgScore criticalBonus) highBonus;
           overallScore = (if fgt overallScore0 (Finite 100) then Finite 100 else overallScore0)
       in fdiv (math_Round (fmul overallScore (Finite 100))) (Finite 100)))"

subsection \<open>What the scoring claims are stated in\<close>

text \<open>The table of severity weights.\<close>

definition severityWeight :: "string \<Rightarrow> float64" where
  "severityWeight sev =
    (if sev = ''critical'' then Finite 10 else if sev = ''high'' then Finite (15 / 2)
     else if sev = ''medium'' then Finite 5 else if sev = ''low'' then Finite (5 / 2)
     else if sev = ''info'' then Finite 1 else Finite 1)"

text \<open>
  The drift: the float stored under the context key, 0 if there is none. The LLM
  confidence: the float stored in the metadata, if there is one.
\<close>

definition supplyChainDrift :: "Scan \<Rightarrow> float64" where
  "supplyChainDrift scan =
     (case Context scan ''supply_chain_drift'' of Some (VFloat drift) \<Rightarrow> drift | _ \<Rightarrow> Finite 0)"

definition llmConfidenceMeta :: "Vulnerability \<Rightarrow> float64 option" where
  "llmConfidenceMeta vuln =
     (case Metadata vuln ''llm_confidence'' of Some (VFloat conf) \<Rightarrow> Some conf | _ \<Rightarrow> None)"

text \<open>The product of the four factors, in float64, from left to right.\<close>

definition raw_score :: "Vulnerability \<Rightarrow> Scan \<Rightarrow> float64" where
  "raw_score vuln scan =
     fmul (fmul (fmul (severityWeight (Severity vuln))
                      (if Exploitable vuln then Finite (3 / 2) else Finite 1))
                (fadd (Finite 1) (fmul (supplyChainDrift scan) (fl (1 / 5)))))
          (case llmConfidenceMeta vuln of
             Some conf \<Rightarrow> fadd (fl (4 / 5)) (fmul conf (fl (1 / 5)))
           | None \<Rightarrow> Finite 1)"

text \<open>The cap at 100, and the rounding to two decimals as the engine does it.\<close>

definition cap100 :: "float64 \<Rightarrow> float64" where
  "cap100 x = (if fgt x (Finite 100) then Finite 100 else x)"

definition round2 :: "float64 \<Rightarrow> float64" where
  "round2 x = fdiv (math_Round (fmul x (Finite 100))) (Finite 100)"

definition countCritical :: "Vulnerability list \<Rightarrow> nat" where
  "countCritical vulns = length (filter (\<lambda>v. Severity v = ''critical'') vulns)"

definition countHigh :: "Vulnerability list \<Rightarrow> nat" where
  "countHigh vulns = length (filter (\<lambda>v. Severity v = ''high'') vulns)"

text \<open>The float64 sum of the risk-score fields, in list order.\<close>

definition total_score :: "Vulnerability list \<Rightarrow> float64" where
  "total_score vulns = foldl fadd (Finite 0) (map RiskScore vulns)"

text \<open>
  The scores as the claims word them, in exact arithmetic on the values of the floats:
  the product capped at 100 and rounded to the hundredth with a tie going up; the mean
  plus the bonuses, capped at 100 and rounded to the nearest hundredth.
\<close>

fun float_value :: "float64 \<Rightarrow> rat" where
  "float_value (Finite x) = x"
| "float_value a = 0"


definition claimed_overall_score :: "Vulnerability list \<Rightarrow> rat" where
  "claimed_overall_score vulns =
    (if vulns = [] then 0
     else of_int (round_half_away
            (min 100 (sum_list (map (\<lambda>v. float_value (RiskScore v)) vulns) / of_nat (length vulns)
                      + 5 * of_nat (countCritical vulns) + 2 * of_nat (countHigh vulns)) * 100)) / 100)"

section \<open>Errors, contexts and log output\<close>

text \<open>
  Go errors as values. \<open>ContextErr\<close> is what \<open>ctx.Err()\<close> returns once the context is
  done; \<open>Wrapf msg cause\<close> is \<open>fmt.Errorf("msg: %w", cause)\<close>. A context is the value of
  its \<open>Err()\<close>: \<open>None\<close> while it is not done.
\<close>

datatype ctx_error = Canceled | DeadlineExceeded

datatype error = ContextErr ctx_error | Errorf string | Wrapf string error

fun error_string :: "error \<Rightarrow> string" where
  "error_string (ContextErr Canceled) = ''context canceled''"
| "error_string (ContextErr DeadlineExceeded) = ''context deadline exceeded''"
| "error_string (Errorf msg) = msg"
| "error_string (Wrapf msg cause) = msg @ '': '' @ error_string cause"

section \<open>Modules and the registry\<close>

text \<open>
  The \<open>Module\<close> interface as a record of its methods. \<open>Prerequisites\<close> and \<open>Cleanup\<close>
  take no argument and return an error or nil; \<open>Run\<close> receives the context and the scan
  it may mutate, and returns an error or nil together with the scan it leaves behind.
\<close>

record Module =
  Name :: string
  Description :: string
  Category :: string
  Author :: string
  Version :: string
  Prerequisites :: "error option"
  Run :: "ctx_error option \<Rightarrow> Scan \<Rightarrow> error option \<times> Scan"
  Cleanup :: "error option"

text \<open>
  The registry's map from names to modules, kept as an association list with distinct
  keys so that it can be enumerated; Go leaves the enumeration order open.
  \<open>logrus.Fatalf\<close> logs and exits the process: \<open>Register\<close> then returns \<open>Inl\<close>.
  The debug line of a successful registration is not kept.
\<close>

record Registry =
  modules :: "(string \<times> Module) list"

datatype fatal = Fatal string

definition Register :: "Registry \<Rightarrow> Module \<Rightarrow> fatal + Registry" where
  "Register registry modl =
    (let name = Name modl in
     if name = [] then Inl (Fatal ''Module name cannot be empty'')
     else if map_of (modules registry) name \<noteq> None
       then Inl (Fatal (''Module '' @ name @ '' already registered''))
     else Inr (registry \<lparr> modules := modules registry @ [(name, modl)] \<rparr>))"

definition GetModule :: "Registry \<Rightarrow> string \<Rightarrow> Module option \<times> bool" where
  "GetModule registry name =
    (case map_of (modules registry) name of None \<Rightarrow> (None, False) | Some modl \<Rightarrow> (Some modl, True))"

definition GetModulesByCategory :: "Registry \<Rightarrow> string \<Rightarrow> Module list" where
  "GetModulesByCategory registry category =
     filter (\<lambda>modl. Category modl = category) (map snd (modules registry))"

section \<open>Orchestrator (package core)\<close>

text \<open>
  The sandbox manager and the report generator are collaborators outside the
  orchestrator: they are taken as they are given, as records of the operations the
  orchestrator calls.
\<close>

record SandboxManager =
  Initialize :: "error option"
  IsActive :: bool
  ExecuteModule :: "ctx_error option \<Rightarrow> Module \<Rightarrow> Scan \<Rightarrow> error option \<times> Scan"

text \<open>The orchestrator; \<open>logger\<close> is kept as the lines written through it.\<close>

record Orchestrator =
  config :: ScanConfig
  scan :: Scan
  logger :: "log_entry list"
  sandbox :: SandboxManager
  reporter :: "ctx_error option \<Rightarrow> Scan \<Rightarrow> error option"
  scorer :: Engine

text \<open>The state a run works on: the orchestrator and the context passed to \<open>Execute\<close>.\<close>

record World =
  orch :: Orchestrator
  ctx :: "ctx_error option"

definition logf :: "level \<Rightarrow> string \<Rightarrow> string \<Rightarrow> World \<Rightarrow> World" where
  "logf lvl field msg w = w \<lparr> orch := (orch w) \<lparr> logger := logger (orch w) @ [Log lvl field msg] \<rparr> \<rparr>"

definition the_summary :: "World \<Rightarrow> ScanSummary" where
  "the_summary w = Summary (Results (scan (orch w)))"

definition set_scan :: "Scan \<Rightarrow> World \<Rightarrow> World" where
  "set_scan s w = w \<lparr> orch := (orch w) \<lparr> scan := s \<rparr> \<rparr>"

definition set_summary :: "ScanSummary \<Rightarrow> World \<Rightarrow> World" where
  "set_summary sm w =
     set_scan ((scan (orch w)) \<lparr> Results := (Results (scan (orch w))) \<lparr> Summary := sm \<rparr> \<rparr>) w"

subsection \<open>executeModule\<close>

text \<open>
  One module, run to the end without interference: through the sandbox if it is active,
  directly otherwise. A failure is logged and swallowed; only a success reaches the
  append to \<open>ModulesExecuted\<close>. The returned error is always nil.
\<close>

definition call_module :: "World \<Rightarrow> Module \<Rightarrow> error option \<times> Scan" where
  "call_module w md =
    (if IsActive (sandbox (orch w)) then ExecuteModule (sandbox (orch w)) (ctx w) md (scan (orch w))
     else Run md (ctx w) (scan (orch w)))"

definition executeModule :: "World \<Rightarrow> Module \<Rightarrow> error option \<times> World" where
  "executeModule w md =
    (let w1 = logf InfoLevel (Name md) ''Executing module'' w in
     case call_module w1 md of
       (Some err, s) \<Rightarrow>
         (None, logf InfoLevel (Name md) ''Module execution completed''
                  (logf ErrorLevel (Name md) (''Module execution failed: '' @ error_string err)
                     (set_scan s w1)))
     | (None, s) \<Rightarrow>
         (let w2 = set_scan s w1;
              w3 = set_summary ((the_summary w2)
                     \<lparr> ModulesExecuted := ModulesExecuted (the_summary w2) @ [Name md] \<rparr>) w2
          in (None, logf InfoLevel (Name md) ''Module execution completed'' w3)))"

subsection \<open>executeModules: resolution and prerequisites\<close>

definition build_moduleMap :: "Module list \<Rightarrow> (string \<rightharpoonup> Module)" where
  "build_moduleMap availableModules = fold (\<lambda>md m. m(Name md \<mapsto> md)) availableModules Map.empty"

text \<open>The loop over the requested names, with the modules kept so far.\<close>

fun filter_active ::
  "(string \<rightharpoonup> Module) \<Rightarrow> string list \<Rightarrow> Module list \<times> World \<Rightarrow> Module list \<times> World" where
  "filter_active moduleMap [] acc = acc"
| "filter_active moduleMap (name # names) (activeModules, w) =
    (case moduleMap name of
       None \<Rightarrow> filter_active moduleMap names (activeModules, w)
     | Some md \<Rightarrow>
        (case Prerequisites md of
           Some err \<Rightarrow> filter_active moduleMap names
              (activeModules,
               logf WarnLevel [] (''Module '' @ name @ '' prerequisites not met, skipping: '' @ error_string err) w)
         | None \<Rightarrow> filter_active moduleMap names (activeModules @ [md], w)))"

subsection \<open>executeModules: the goroutines\<close>

text \<open>
  One goroutine per active module. Its control points: at the \<open>select\<close>; holding a
  slot, about to call \<open>executeModule\<close>; after a successful run, about to read
  \<open>ModulesExecuted\<close>; holding the slice it read, about to store the appended slice;
  about to give its slot back; returned with its error. The read and the store of the
  append are separate steps: no lock is held between them. The call of the module is one
  step: what a module does to the scan is not interleaved with the other goroutines.
\<close>

datatype pc = AtSelect | AtRun | AtLoad | AtStore "string list" | AtRelease | Finished "error option"

record Group =
  mods :: "Module list"
  pcs :: "pc list"
  sem :: nat
  first_err :: "error option"
  world :: World

text \<open>
  What happens next is chosen by the scheduler and the environment: goroutine \<open>i\<close> takes
  its next step (at the \<open>select\<close>: the send on \<open>sem\<close>), goroutine \<open>i\<close> takes the
  \<open>Done\<close> branch of its \<open>select\<close>, or the context is cancelled from outside. A step
  that is not enabled leaves the state as it is.
\<close>

datatype event = Step nat | Abort nat | Cancel ctx_error

definition sem_capacity :: nat where
  "sem_capacity = 3"

definition set_pc :: "nat \<Rightarrow> pc \<Rightarrow> Group \<Rightarrow> Group" where
  "set_pc i p g = g \<lparr> pcs := (pcs g)[i := p] \<rparr>"

definition go_step :: "nat \<Rightarrow> Group \<Rightarrow> Group" where
  "go_step i g =
    (if i < length (pcs g) \<and> i < length (mods g) then
      (let md = mods g ! i in
       case pcs g ! i of
         AtSelect \<Rightarrow> (if sem g < sem_capacity then set_pc i AtRun (g \<lparr> sem := sem g + 1 \<rparr>) else g)
       | AtRun \<Rightarrow>
          (let w1 = logf InfoLevel (Name md) ''Executing module'' (world g) in
           case call_module w1 md of
             (Some err, s) \<Rightarrow>
               set_pc i AtRelease (g \<lparr> world :=
                 logf InfoLevel (Name md) ''Module execution completed''
                   (logf ErrorLevel (Name md) (''Module execution failed: '' @ error_string err)
                      (set_scan s w1)) \<rparr>)
           | (None, s) \<Rightarrow> set_pc i AtLoad (g \<lparr> world := set_scan s w1 \<rparr>))
       | AtLoad \<Rightarrow> set_pc i (AtStore (ModulesExecuted (the_summary (world g)))) g
       | AtStore executed \<Rightarrow>
           set_pc i AtRelease (g \<lparr> world :=
             logf InfoLevel (Name md) ''Module execution completed''
               (set_summary ((the_summary (world g)) \<lparr> ModulesExecuted := executed @ [Name md] \<rparr>)
                  (world g)) \<rparr>)
       | AtRelease \<Rightarrow> set_pc i (Finished None) (g \<lparr> sem := sem g - 1 \<rparr>)
       | Finished r \<Rightarrow> g)
     else g)"

definition go_abort :: "nat \<Rightarrow> Group \<Rightarrow> Group" where
  "go_abort i g =
    (if i < length (pcs g) \<and> pcs g ! i = AtSelect then
       (case ctx (world g) of
          None \<Rightarrow> g
        | Some c \<Rightarrow> set_pc i (Finished (Some (ContextErr c)))
             (g \<lparr> first_err := (case first_err g of None \<Rightarrow> Some (ContextErr c) | Some e \<Rightarrow> Some e) \<rparr>))
     else g)"

definition cancel :: "ctx_error \<Rightarrow> Group \<Rightarrow> Group" where
  "cancel c g =
    (case ctx (world g) of None \<Rightarrow> g \<lparr> world := (world g) \<lparr> ctx := Some c \<rparr> \<rparr> | Some c' \<Rightarrow> g)"

fun do_event :: "event \<Rightarrow> Group \<Rightarrow> Group" where
  "do_event (Step i) g = go_step i g"
| "do_event (Abort i) g = go_abort i g"
| "do_event (Cancel c) g = cancel c g"

definition run_events :: "event list \<Rightarrow> Group \<Rightarrow> Group" where
  "run_events schedule g = fold do_event schedule g"

definition spawn :: "Module list \<Rightarrow> World \<Rightarrow> Group" where
  "spawn activeModules w =
     \<lparr> mods = activeModules, pcs = replicate (length activeModules) AtSelect, sem = 0,
       first_err = None, world = w \<rparr>"

fun is_finished :: "pc \<Rightarrow> bool" where
  "is_finished (Finished r) = True"
| "is_finished p = False"

text \<open>\<open>g.Wait()\<close> returns the group's first error once every goroutine has returned.\<close>

definition Wait :: "Group \<Rightarrow> error option option" where
  "Wait g = (if list_all is_finished (pcs g) then Some (first_err g) else None)"

text \<open>
  \<open>executeModules\<close> under a schedule. The result is \<open>None\<close> when the schedule ends
  before \<open>Wait\<close> can return, and \<open>Some r\<close> when the function returns \<open>r\<close>.
\<close>

definition executeModules ::
  "Registry \<Rightarrow> event list \<Rightarrow> string list \<Rightarrow> string \<Rightarrow> World \<Rightarrow> error option option \<times> World" where
  "executeModules registry schedule moduleNames category w =
    (let availableModules = GetModulesByCategory registry category;
         moduleMap = build_moduleMap availableModules;
         (activeModules, w1) = filter_active moduleMap moduleNames ([], w)
     in if length activeModules = 0
        then (Some None, logf WarnLevel [] (''No modules available for category '' @ category) w1)
        else (let g = run_events schedule (spawn activeModules w1) in (Wait g, world g)))"

subsection \<open>The phases\<close>

definition runDiscoveryPhase :: "Registry \<Rightarrow> event list \<Rightarrow> World \<Rightarrow> error option option \<times> World" where
  "runDiscoveryPhase registry schedule w =
     executeModules registry schedule [''subfinder'', ''amass'', ''dnsx'', ''asnmap''] ''stable'' w"

definition runScanningPhase :: "Registry \<Rightarrow> event list \<Rightarrow> World \<Rightarrow> error option option \<times> World" where
  "runScanningPhase registry schedule w =
     executeModules registry schedule [''naabu'', ''nmap'', ''httpx''] ''stable'' w"

definition runVulnPhase :: "Registry \<Rightarrow> event list \<Rightarrow> World \<Rightarrow> error option option \<times> World" where
  "runVulnPhase registry schedule w =
     executeModules registry schedule [''nuclei'', ''katana'', ''ffuf''] ''stable'' w"

definition bleedingModules :: "string list" where
  "bleedingModules =
     [''llm-fuzzer'', ''auto-patch'', ''shadow-clone'', ''dep-drift'', ''timing-map'', ''blue-team'']"

definition runBleedingEdgePhase :: "Registry \<Rightarrow> event list \<Rightarrow> World \<Rightarrow> error option option \<times> World" where
  "runBleedingEdgePhase registry schedule w =
    (if \<not> cfg_BleedingEdge (config (orch w))
     then (Some None, logf InfoLevel [] ''Skipping bleeding-edge modules (not enabled)'' w)
     else executeModules registry schedule bleedingModules ''bleeding-edge'' w)"


subsection \<open>Scoring phase and summary\<close>

text \<open>\<open>updateScanSummary\<close>, loop by loop; each loop body is a step on the summary.\<close>

definition alive_step :: "HostResult \<Rightarrow> ScanSummary \<Rightarrow> ScanSummary" where
  "alive_step host sm =
    (if length (Ports host) > 0 \<or> length (Services host) > 0
     then sm \<lparr> AliveHosts := AliveHosts sm + 1 \<rparr> else sm)"

definition count_hosts :: "HostResult list \<Rightarrow> ScanSummary \<Rightarrow> ScanSummary" where
  "count_hosts hosts summary =
     fold alive_step hosts (summary \<lparr> TotalHosts := int (length hosts), AliveHosts := 0 \<rparr>)"

definition open_step :: "PortResult \<Rightarrow> ScanSummary \<Rightarrow> ScanSummary" where
  "open_step port sm =
    (if State port = ''open'' then sm \<lparr> OpenPorts := OpenPorts sm + 1 \<rparr> else sm)"

definition port_step :: "HostResult \<Rightarrow> ScanSummary \<Rightarrow> ScanSummary" where
  "port_step host sm =
     fold open_step (Ports host) (sm \<lparr> TotalPorts := TotalPorts sm + int (length (Ports host)) \<rparr>)"

definition count_ports :: "HostResult list \<Rightarrow> ScanSummary \<Rightarrow> ScanSummary" where
  "count_ports hosts summary = fold port_step hosts (summary \<lparr> TotalPorts := 0, OpenPorts := 0 \<rparr>)"

definition count_severity :: "Vulnerability \<Rightarrow> ScanSummary \<Rightarrow> ScanSummary" where
  "count_severity vuln sm =
    (if Severity vuln = ''critical'' then sm \<lparr> CriticalVulns := CriticalVulns sm + 1 \<rparr>
     else if Severity vuln = ''high'' then sm \<lparr> HighVulns := HighVulns sm + 1 \<rparr>
     else if Severity vuln = ''medium'' then sm \<lparr> MediumVulns := MediumVulns sm + 1 \<rparr>
     else if Severity vuln = ''low'' then sm \<lparr> LowVulns := LowVulns sm + 1 \<rparr>
     else sm)"

definition vuln_step :: "Vulnerability \<Rightarrow> ScanSummary \<Rightarrow> ScanSummary" where
  "vuln_step vuln sm =
    (let sm1 = count_severity vuln sm
     in if Exploitable vuln then sm1 \<lparr> ExploitableVulns := ExploitableVulns sm1 + 1 \<rparr> else sm1)"

definition count_vulns :: "Vulnerability list \<Rightarrow> ScanSummary \<Rightarrow> ScanSummary" where
  "count_vulns vulns summary =
     fold vuln_step vulns
       (summary \<lparr> TotalVulns := int (length vulns), CriticalVulns := 0, HighVulns := 0,
                  MediumVulns := 0, LowVulns := 0, ExploitableVulns := 0 \<rparr>)"

definition updateScanSummary :: "Orchestrator \<Rightarrow> Orchestrator" where
  "updateScanSummary orc =
    (let results = Results (scan orc);
         summary = count_vulns (Vulnerabilities results)
                     (count_ports (Hosts results) (count_hosts (Hosts results) (Summary results)))
     in orc \<lparr> scan := (scan orc) \<lparr> Results := results \<lparr> Summary := summary \<rparr> \<rparr> \<rparr>)"

text \<open>
  One iteration of the scoring loop, at index \<open>i\<close> of the vulnerability slice: the
  score is computed from the element and the scan, written to the element, and counted
  in \<open>HighRiskVulns\<close> when it is at least 70.
\<close>

definition score_step :: "nat \<Rightarrow> Orchestrator \<Rightarrow> Orchestrator" where
  "score_step i orc =
    (let results = Results (scan orc);
         vuln = Vulnerabilities results ! i;
         score = CalculateRiskScore (scorer orc) vuln (scan orc);
         results1 = results \<lparr> Vulnerabilities := (Vulnerabilities results)[i := vuln \<lparr> RiskScore := score \<rparr>] \<rparr>;
         results2 = (if fge score (Finite 70)
                     then results1 \<lparr> Summary := (Summary results1)
                            \<lparr> HighRiskVulns := HighRiskVulns (Summary results1) + 1 \<rparr> \<rparr>
                     else results1)
     in orc \<lparr> scan := (scan orc) \<lparr> Results := results2 \<rparr> \<rparr>)"

definition score_all :: "Orchestrator \<Rightarrow> Orchestrator" where
  "score_all orc = fold score_step [0 ..< length (Vulnerabilities (Results (scan orc)))] orc"

definition set_overall :: "Orchestrator \<Rightarrow> Orchestrator" where
  "set_overall orc =
    (let results = Results (scan orc);
         overallScore = CalculateOverallRiskScore (scorer orc) (Vulnerabilities results)
     in orc \<lparr> scan := (scan orc)
          \<lparr> Results := results \<lparr> Summary := (Summary results) \<lparr> sum_RiskScore := overallScore \<rparr> \<rparr> \<rparr> \<rparr>)"

definition runScoringPhase :: "World \<Rightarrow> error option option \<times> World" where
  "runScoringPhase w =
    (let w1 = logf InfoLevel [] ''Calculating risk scores'' w
     in (Some None, w1 \<lparr> orch := updateScanSummary (set_overall (score_all (orch w1))) \<rparr>))"

definition runReportingPhase :: "World \<Rightarrow> error option option \<times> World" where
  "runReportingPhase w =
    (let w1 = logf InfoLevel [] ''Generating reports'' w
     in (Some (reporter (orch w1) (ctx w1) (scan (orch w1))), w1))"

subsection \<open>Execute\<close>

text \<open>
  The loop over the phases. A phase is its name and its function; the function's result
  is \<open>None\<close> when it does not return. The loop's own result is \<open>Some None\<close> when it runs
  off the end of the list.
\<close>

type_synonym phase = "string \<times> (World \<Rightarrow> error option option \<times> World)"

fun run_phases :: "phase list \<Rightarrow> World \<Rightarrow> error option option \<times> World" where
  "run_phases [] w = (Some None, w)"
| "run_phases ((name, fn) # phases) w =
    (case fn (logf InfoLevel [] (''Phase: '' @ name) w) of
       (None, w1) \<Rightarrow> (None, w1)
     | (Some (Some err), w1) \<Rightarrow> (Some (Some (Wrapf (''phase '' @ name @ '' failed'') err)), w1)
     | (Some None, w1) \<Rightarrow>
         (let w2 = logf InfoLevel [] (''Phase '' @ name @ '' completed'') w1
          in case ctx w2 of
               Some c \<Rightarrow> (Some (Some (ContextErr c)), w2)
             | None \<Rightarrow> run_phases phases w2))"

definition validateTargets :: "Orchestrator \<Rightarrow> error option" where
  "validateTargets orc =
    (if length (Targets (scan orc)) = 0 then Some (Errorf ''no targets specified'') else None)"

definition the_phases :: "Registry \<Rightarrow> event list \<Rightarrow> event list \<Rightarrow> event list \<Rightarrow> event list \<Rightarrow> phase list" where
  "the_phases registry s1 s2 s3 s4 =
     [(''Discovery'', runDiscoveryPhase registry s1),
      (''Scanning'', runScanningPhase registry s2),
      (''Vulnerability Assessment'', runVulnPhase registry s3),
      (''Bleeding Edge'', runBleedingEdgePhase registry s4),
      (''Scoring'', runScoringPhase),
      (''Reporting'', runReportingPhase)]"

text \<open>
  \<open>Execute\<close>, given the schedules of the four module phases and the duration string
  the deferred function stores on the way out. The deferred \<open>sandbox.Cleanup\<close> has no
  effect on the orchestrator.
\<close>

definition set_duration :: "string \<Rightarrow> World \<Rightarrow> World" where
  "set_duration d w = logf InfoLevel [] ''Scan completed'' (set_summary ((the_summary w) \<lparr> ScanDuration := d \<rparr>) w)"

definition Execute ::
  "Registry \<Rightarrow> event list \<Rightarrow> event list \<Rightarrow> event list \<Rightarrow> event list \<Rightarrow> string \<Rightarrow> World
     \<Rightarrow> error option option \<times> World" where
  "Execute registry s1 s2 s3 s4 duration w =
    (let w0 = logf InfoLevel [] ''Starting TraceHawk X scan'' w in
     case validateTargets (orch w0) of
       Some err \<Rightarrow> (Some (Some (Wrapf ''target validation failed'' err)), set_duration duration w0)
     | None \<Rightarrow>
        (let w1 = (case Initialize (sandbox (orch w0)) of
                     Some err \<Rightarrow> logf WarnLevel []
                       (''Sandbox initialization failed, continuing without sandbox: '' @ error_string err) w0
                   | None \<Rightarrow> w0)
         in case run_phases (the_phases registry s1 s2 s3 s4) w1 of
              (Some None, w2) \<Rightarrow>
                (Some None, set_duration duration
                   (logf InfoLevel [] ''Scan execution completed successfully'' w2))
            | (Some (Some err), w2) \<Rightarrow> (Some (Some err), set_duration duration w2)
            | (None, w2) \<Rightarrow> (None, w2)))"

subsection \<open>What the claims are stated in\<close>

text \<open>The modules of a requested list that are resolved and pass their prerequisites.\<close>

definition survivors :: "(string \<rightharpoonup> Module) \<Rightarrow> string list \<Rightarrow> Module list" where
  "survivors moduleMap names =
     List.map_filter (\<lambda>name. case moduleMap name of
                        None \<Rightarrow> None
                      | Some md \<Rightarrow> (if Prerequisites md = None then Some md else None)) names"

text \<open>The warnings for the resolved modules whose prerequisites fail.\<close>

definition prereq_warnings :: "(string \<rightharpoonup> Module) \<Rightarrow> string list \<Rightarrow> log_entry list" where
  "prereq_warnings moduleMap names =
     List.map_filter (\<lambda>name. case moduleMap name of
                        None \<Rightarrow> None
                      | Some md \<Rightarrow> (case Prerequisites md of
                           None \<Rightarrow> None
                         | Some err \<Rightarrow> Some (Log WarnLevel []
                             (''Module '' @ name @ '' prerequisites not met, skipping: '' @ error_string err))))
       names"

definition add_logs :: "log_entry list \<Rightarrow> World \<Rightarrow> World" where
  "add_logs es w = w \<lparr> orch := (orch w) \<lparr> logger := logger (orch w) @ es \<rparr> \<rparr>"

text \<open>The module map \<open>executeModules\<close> builds for a category.\<close>

definition resolve :: "Registry \<Rightarrow> string \<Rightarrow> (string \<rightharpoonup> Module)" where
  "resolve registry category = build_moduleMap (GetModulesByCategory registry category)"

text \<open>A goroutine holds an admission slot from its send on \<open>sem\<close> to its receive.\<close>

fun holds_slot :: "pc \<Rightarrow> bool" where
  "holds_slot AtSelect = False"
| "holds_slot (Finished r) = False"
| "holds_slot p = True"

definition slots_held :: "Group \<Rightarrow> nat" where
  "slots_held g = length (filter holds_slot (pcs g))"

definition is_alive :: "HostResult \<Rightarrow> bool" where
  "is_alive host \<longleftrightarrow> Ports host \<noteq> [] \<or> Services host \<noteq> []"

definition all_ports :: "HostResult list \<Rightarrow> PortResult list" where
  "all_ports hosts = concat (map Ports hosts)"

definition count_where :: "('a \<Rightarrow> bool) \<Rightarrow> 'a list \<Rightarrow> int" where
  "count_where P xs = int (length (filter P xs))"

text \<open>The counters recomputed from the hosts and the vulnerabilities.\<close>

definition recount :: "HostResult list \<Rightarrow> Vulnerability list \<Rightarrow> ScanSummary \<Rightarrow> ScanSummary" where
  "recount hosts vulns sm =
     sm \<lparr> TotalHosts := int (length hosts),
          AliveHosts := count_where is_alive hosts,
          TotalPorts := int (length (all_ports hosts)),
          OpenPorts := count_where (\<lambda>p. State p = ''open'') (all_ports hosts),
          TotalVulns := int (length vulns),
          CriticalVulns := count_where (\<lambda>v. Severity v = ''critical'') vulns,
          HighVulns := count_where (\<lambda>v. Severity v = ''high'') vulns,
          MediumVulns := count_where (\<lambda>v. Severity v = ''medium'') vulns,
          LowVulns := count_where (\<lambda>v. Severity v = ''low'') vulns,
          ExploitableVulns := count_where Exploitable vulns \<rparr>"

section \<open>Concrete inputs\<close>

definition example_vuln :: "string \<Rightarrow> bool \<Rightarrow> float64 \<Rightarrow> (string \<rightharpoonup> go_value) \<Rightarrow> Vulnerability" where
  "example_vuln sev expl rs md =
     \<lparr> ID = ''V-1'', vuln_Name = ''finding'', vuln_Description = [], Severity = sev, CVSS = Finite 0,
       CVE = [], vuln_Host = ''10.0.0.1'', vuln_Port = 443, vuln_Service = ''https'', vuln_URL = [],
       Evidence = [], PoC = [], References = [], RiskScore = rs, Exploitable = expl, Metadata = md \<rparr>"

definition example_config :: "bool \<Rightarrow> ScanConfig" where
  "example_config bleeding =
     \<lparr> cfg_Targets = [''example.com''], Threads = 10, RateLimit = 100, Deep = False,
       cfg_BleedingEdge = bleeding, Stealth = False, Aggressive = False, NoThrottle = False \<rparr>"

definition empty_summary :: ScanSummary where
  "empty_summary =
     \<lparr> TotalHosts = 0, AliveHosts = 0, TotalPorts = 0, OpenPorts = 0, TotalVulns = 0,
       CriticalVulns = 0, HighVulns = 0, MediumVulns = 0, LowVulns = 0, ExploitableVulns = 0,
       HighRiskVulns = 0, ScanDuration = [], sum_RiskScore = Finite 0, ModulesExecuted = [] \<rparr>"

definition example_scan ::
  "bool \<Rightarrow> HostResult list \<Rightarrow> Vulnerability list \<Rightarrow> (string \<rightharpoonup> go_value) \<Rightarrow> Scan" where
  "example_scan bleeding hs vs cx =
     \<lparr> scan_ID = ''scan-1'', Targets = [''example.com''], Config = example_config bleeding,
       Results = \<lparr> Hosts = hs, Vulnerabilities = vs, Patches = [], BleedingEdge = Map.empty,
                   Summary = empty_summary \<rparr>,
       Context = cx, Logger = [] \<rparr>"

definition example_module :: "string \<Rightarrow> string \<Rightarrow> error option \<Rightarrow> error option \<Rightarrow> Module" where
  "example_module name category prereq result =
     \<lparr> Name = name, Description = ''example'', Category = category, Author = ''TraceHawk Team'',
       Version = ''1.0.0'', Prerequisites = prereq, Run = (\<lambda>c s. (result, s)), Cleanup = None \<rparr>"

definition empty_registry :: Registry where
  "empty_registry = \<lparr> modules = [] \<rparr>"

definition registry_of :: "Module list \<Rightarrow> Registry" where
  "registry_of ms = \<lparr> modules = map (\<lambda>md. (Name md, md)) ms \<rparr>"

definition no_sandbox :: SandboxManager where
  "no_sandbox = \<lparr> Initialize = None, IsActive = False, ExecuteModule = (\<lambda>c md s. (None, s)) \<rparr>"

definition example_world :: "bool \<Rightarrow> HostResult list \<Rightarrow> Vulnerability list \<Rightarrow> (string \<rightharpoonup> go_value) \<Rightarrow> World" where
  "example_world bleeding hs vs cx =
     \<lparr> orch = \<lparr> config = example_config bleeding, scan = example_scan bleeding hs vs cx, logger = [],
                sandbox = no_sandbox, reporter = (\<lambda>c s. None), scorer = NewEngine \<rparr>,
       ctx = None \<rparr>"

text \<open>The bleeding-edge modules and their registration at start-up.\<close>

definition placeholder_module :: "string \<Rightarrow> string \<Rightarrow> string \<Rightarrow> Module" where
  "placeholder_module name description message =
     \<lparr> Name = name, Description = description, Category = ''bleeding-edge'',
       Author = ''TraceHawk Team'', Version = ''1.0.0'', Prerequisites = None,
       Run = (\<lambda>c s. (None, s \<lparr> Logger := Logger s @ [Log InfoLevel [] message] \<rparr>)),
       Cleanup = None \<rparr>"

definition LLMFuzzerModule :: Module where
  "LLMFuzzerModule = placeholder_module ''llm-fuzzer''
     ''LLM-guided semantic fuzzer using local Llama models'' ''Running LLM-guided semantic fuzzer''"

definition AutoPatchModule :: Module where
  "AutoPatchModule = placeholder_module ''auto-patch''
     ''Generates code patches and WAF rules for discovered vulnerabilities''
     ''Generating auto-patches for vulnerabilities''"

definition ShadowCloneModule :: Module where
  "ShadowCloneModule = placeholder_module ''shadow-clone''
     ''Mirrors production traffic to test auth-bound vulnerabilities'' ''Running shadow clone proxy''"

definition DepDriftModule :: Module where
  "DepDriftModule = placeholder_module ''dep-drift''
     ''Scans for supply chain dependency drift and risk distance'' ''Scanning for dependency drift''"

definition TimingMapModule :: Module where
  "TimingMapModule = placeholder_module ''timing-map''
     ''Performs side-channel timing analysis using eBPF'' ''Performing timing analysis''"

definition BlueTeamModule :: Module where
  "BlueTeamModule = placeholder_module ''blue-team''
     ''Generates blue team replay kits with synthetic logs and detection rules''
     ''Generating blue team replay kit''"

definition bleeding_edge_modules :: "Module list" where
  "bleeding_edge_modules =
     [LLMFuzzerModule, AutoPatchModule, ShadowCloneModule, DepDriftModule, TimingMapModule,
      BlueTeamModule]"

text \<open>\<open>init\<close>: one \<open>Register\<close> after the other, stopping at a fatal one.\<close>

fun register_all :: "Module list \<Rightarrow> Registry \<Rightarrow> fatal + Registry" where
  "register_all [] registry = Inr registry"
| "register_all (md # mds) registry =
     (case Register registry md of Inl f \<Rightarrow> Inl f | Inr registry' \<Rightarrow> register_all mds registry')"

definition scored :: "Orchestrator \<Rightarrow> Vulnerability \<Rightarrow> Vulnerability" where
  "scored orc v = v \<lparr> RiskScore := CalculateRiskScore (scorer orc) v (scan orc) \<rparr>"

definition is_high_risk :: "Orchestrator \<Rightarrow> Vulnerability \<Rightarrow> bool" where
  "is_high_risk orc v \<longleftrightarrow> fge (CalculateRiskScore (scorer orc) v (scan orc)) (Finite 70)"

definition scored_upto :: "nat \<Rightarrow> Orchestrator \<Rightarrow> Orchestrator" where
  "scored_upto k orc =
     orc \<lparr> scan := (scan orc) \<lparr> Results := (Results (scan orc))
       \<lparr> Vulnerabilities := map (scored orc) (take k (Vulnerabilities (Results (scan orc))))
                               @ drop k (Vulnerabilities (Results (scan orc))),
         Summary := (Summary (Results (scan orc)))
           \<lparr> HighRiskVulns := HighRiskVulns (Summary (Results (scan orc)))
                + count_where (is_high_risk orc) (take k (Vulnerabilities (Results (scan orc)))) \<rparr> \<rparr> \<rparr> \<rparr>"

definition drifted :: "string \<rightharpoonup> go_value" where
  "drifted = [''supply_chain_drift'' \<mapsto> VFloat (Finite 20)]"

definition ok_phase :: "World \<Rightarrow> error option option \<times> World" where
  "ok_phase w = (Some None, w)"

definition failing_phase :: "World \<Rightarrow> error option option \<times> World" where
  "failing_phase w = (Some (Some (Errorf ''no route to host'')), w)"

definition interrupted_phase :: "World \<Rightarrow> error option option \<times> World" where
  "interrupted_phase w = (Some None, w \<lparr> ctx := Some Canceled \<rparr>)"

definition after_discovery :: World where
  "after_discovery =
     logf InfoLevel [] ''Phase Discovery completed''
       (logf InfoLevel [] ''Phase: Discovery'' (example_world False [] [] Map.empty))"

definition balanced :: "Group \<Rightarrow> bool" where
  "balanced g \<longleftrightarrow> length (pcs g) = length (mods g) \<and> slots_held g = sem g \<and> sem g \<le> sem_capacity"

definition full_pool_schedule :: "event list" where
  "full_pool_schedule = [Step 0, Step 1, Step 2, Step 3, Cancel Canceled]"

definition full_pool :: Group where
  "full_pool = run_events full_pool_schedule
     (spawn bleeding_edge_modules (example_world True [] [] Map.empty))"

definition race_schedule :: "event list" where
  "race_schedule =
     [Step 0, Step 1, Step 0, Step 1, Step 0, Step 1, Step 0, Step 1, Step 0, Step 1,
      Step 2, Step 2, Step 2, Step 2, Step 2, Step 3, Step 3, Step 3, Step 3, Step 3,
      Step 4, Step 4, Step 4, Step 4, Step 4, Step 5, Step 5, Step 5, Step 5, Step 5]"

definition stale_world :: World where
  "stale_world =
     set_summary (empty_summary \<lparr> HighRiskVulns := 7 \<rparr>) (example_world False [] [] Map.empty)"

definition drifted_world :: World where
  "drifted_world =
     example_world False [] [example_vuln ''critical'' True (Finite 0) Map.empty] drifted"

definition example_hosts :: "HostResult list" where
  "example_hosts =
     [\<lparr> IP = ''10.0.0.1'', Hostname = ''a.example.com'',
         Ports = [\<lparr> Port = 443, Protocol = ''tcp'', State = ''open'', Service = ''https'', port_Version = [] \<rparr>,
                  \<lparr> Port = 25, Protocol = ''tcp'', State = ''filtered'', Service = ''smtp'', port_Version = [] \<rparr>],
         Services = [], WebApps = [] \<rparr>,
      \<lparr> IP = [], Hostname = ''b.example.com'', Ports = [], Services = [], WebApps = [] \<rparr>]"

section \<open>Risk scoring\<close>

text \<open>
  The float operations are kept folded; a value is computed where it is needed.
\<close>

declare fmul.simps [simp del] fadd.simps [simp del] fdiv.simps [simp del] math_Round.simps [simp del]

lemma base_severity:
  "(let b = index_float (severityWeights NewEngine) sev in if feq b (Finite 0) then Finite 1 else b)
     = severityWeight sev"
  by (simp add: NewEngine_def severityWeight_def index_float_def)

lemma no_drift: "fadd (Finite 1) (fmul (Finite 0) (fl (1 / 5))) = Finite 1"
  by code_simp

lemma drift_factor:
  "(case GetContext sc ''supply_chain_drift'' of
      (VFloat drift, True) \<Rightarrow> fadd (Finite 1) (fmul drift (driftWeight NewEngine)) | _ \<Rightarrow> Finite 1)
   = fadd (Finite 1) (fmul (supplyChainDrift sc) (fl (1 / 5)))"
  by (simp add: GetContext_def supplyChainDrift_def NewEngine_def no_drift
      split: option.splits go_value.splits)

lemma llm_factor:
  "(case Metadata vuln ''llm_confidence'' of
      Some (VFloat conf) \<Rightarrow> fadd (fl (4 / 5)) (fmul conf (llmWeight NewEngine)) | _ \<Rightarrow> Finite 1)
   = (case llmConfidenceMeta vuln of
        Some conf \<Rightarrow> fadd (fl (4 / 5)) (fmul conf (fl (1 / 5))) | None \<Rightarrow> Finite 1)"
  by (simp add: llmConfidenceMeta_def NewEngine_def split: option.splits go_value.splits)

lemma exploit_coeff:
  "(if Exploitable vuln then exploitWeight NewEngine else Finite 1)
     = (if Exploitable vuln then Finite (3 / 2) else Finite 1)"
  by (simp add: NewEngine_def)

lemma CalculateRiskScore_raw:
  "CalculateRiskScore NewEngine vuln sc = round2 (cap100 (raw_score vuln sc))"
  unfolding CalculateRiskScore_def raw_score_def round2_def cap100_def
  using base_severity [of "Severity vuln"]
  by (simp only: Let_def drift_factor llm_factor exploit_coeff)









lemma overall_loop_sums:
  "overall_loop vulns (t, c, h) =
     (foldl fadd t (map RiskScore vulns), c + int (countCritical vulns), h + int (countHigh vulns))"
  by (induction vulns arbitrary: t c h) (simp_all add: countCritical_def countHigh_def)

text \<open>
  C2, as the engine computes it. The aggregate score of the empty list is 0. Of any
  other list it is the float64 sum of the risk-score fields in list order, divided by
  their number, plus 5 times the number of vulnerabilities labelled critical, plus 2
  times the number labelled high, each operation rounded to the nearest double; a
  result above 100 becomes 100; it is then multiplied by 100, rounded by \<open>math.Round\<close>
  and divided by 100.
\<close>

theorem overall_risk_score_formula:
  "CalculateOverallRiskScore e vulns =
     (if vulns = [] then Finite 0
      else fdiv (math_Round (fmul (cap100
             (fadd (fadd (fdiv (total_score vulns) (float64_of_int (int (length vulns))))
                         (fmul (float64_of_int (int (countCritical vulns))) (Finite 5)))
                   (fmul (float64_of_int (int (countHigh vulns))) (Finite 2))))
             (Finite 100))) (Finite 100))"
  unfolding CalculateOverallRiskScore_def overall_loop_sums total_score_def cap100_def
  by (simp add: Let_def)

lemma overall_three:
  "fdiv (math_Round (fmul (cap100
      (fadd (fadd (fdiv (foldl fadd (Finite 0) [Finite 15, Finite (15 / 2), Finite 80])
                        (float64_of_int 3))
                  (fmul (float64_of_int 1) (Finite 5)))
            (fmul (float64_of_int 1) (Finite 2))))
      (Finite 100))) (Finite 100) = fl (4117 / 100)"
  by code_simp

theorem overall_risk_score_formula_witness:
  "CalculateOverallRiskScore NewEngine [] = Finite 0
   \<and> CalculateOverallRiskScore NewEngine
        [example_vuln ''critical'' True (Finite 15) Map.empty,
         example_vuln ''high'' False (Finite (15 / 2)) Map.empty,
         example_vuln ''low'' False (Finite 80) Map.empty] = fl (4117 / 100)"
  using overall_risk_score_formula [of NewEngine "[]"]
    overall_risk_score_formula [of NewEngine
      "[example_vuln ''critical'' True (Finite 15) Map.empty,
        example_vuln ''high'' False (Finite (15 / 2)) Map.empty,
        example_vuln ''low'' False (Finite 80) Map.empty]"]
    overall_three
  by (simp add: example_vuln_def countCritical_def countHigh_def total_score_def)

lemma overall_two:
  "fdiv (math_Round (fmul (cap100
      (fadd (fadd (fdiv (foldl fadd (Finite 0) [Finite 0, fl (3 / 100)]) (float64_of_int 2))
                  (fmul (float64_of_int 0) (Finite 5)))
            (fmul (float64_of_int 0) (Finite 2))))
      (Finite 100))) (Finite 100) = fl (2 / 100)"
  by code_simp

lemma three_hundredths: "fl (3 / 100) = Finite (1080863910568919 / 36028797018963968)"
  by code_simp

lemma overall_two_claimed:
  "round_half_away (min 100 ((0 + 1080863910568919 / 36028797018963968) / 2 + 5 * 0 + 2 * 0) * 100) = 1"
  "fl (2 / 100) \<noteq> fl (1 / 100)"
  by code_simp+

text \<open>
  C2 as worded, with the mean in exact arithmetic, fails on two scores the engine
  itself returns, 0 and 0.03. The float nearest to 0.03 lies below it, so the exact mean
  lies below 0.015 and its nearest hundredth is 0.01; the engine's product with 100 is
  rounded to the double 1.5, and it returns 0.02.
\<close>

theorem overall_risk_score_counterexample:
  "CalculateOverallRiskScore NewEngine
       [example_vuln ''info'' False (Finite 0) Map.empty,
        example_vuln ''info'' False (fl (3 / 100)) Map.empty] = fl (2 / 100)
   \<and> claimed_overall_score
       [example_vuln ''info'' False (Finite 0) Map.empty,
        example_vuln ''info'' False (fl (3 / 100)) Map.empty] = 1 / 100
   \<and> fl (2 / 100) \<noteq> fl (1 / 100)"
proof -
  let ?vs = "[example_vuln ''info'' False (Finite 0) Map.empty,
              example_vuln ''info'' False (fl (3 / 100)) Map.empty]"
  have code: "CalculateOverallRiskScore NewEngine ?vs = fl (2 / 100)"
    unfolding CalculateOverallRiskScore_def overall_loop_sums cap100_def [symmetric]
    using overall_two
    by (simp add: Let_def example_vuln_def countCritical_def countHigh_def)
  have claim: "claimed_overall_score ?vs = 1 / 100"
    using overall_two_claimed (1)
    by (simp add: claimed_overall_score_def example_vuln_def countCritical_def countHigh_def
        three_hundredths)
  from code claim overall_two_claimed (2) show ?thesis by simp
qed

section \<open>Registry\<close>

lemma map_of_snoc_fresh:
  "map_of xs k = None \<Longrightarrow> map_of (xs @ [(k, v)]) = (map_of xs)(k \<mapsto> v)"
  by (rule ext) (simp add: map_add_def split: option.splits)

lemma example_module_sel:
  "Name (example_module n c p r) = n" "Category (example_module n c p r) = c"
  "Prerequisites (example_module n c p r) = p" "Run (example_module n c p r) cx s = (r, s)"
  by (simp_all add: example_module_def)

text \<open>
  C6. \<open>Register\<close> is fatal exactly when the module's name is empty or already
  registered; otherwise the module is stored under its name and found again by
  \<open>GetModule\<close>, which only reads: it returns the stored module and whether one was found.
\<close>

theorem register_contract:
  "((\<exists>f. Register registry m = Inl f) \<longleftrightarrow> (Name m = [] \<or> map_of (modules registry) (Name m) \<noteq> None))
   \<and> (Name m \<noteq> [] \<and> map_of (modules registry) (Name m) = None \<longrightarrow>
        (\<exists>r. Register registry m = Inr r
           \<and> map_of (modules r) = (map_of (modules registry))(Name m \<mapsto> m)
           \<and> GetModule r (Name m) = (Some m, True)))
   \<and> GetModule registry n = (map_of (modules registry) n, map_of (modules registry) n \<noteq> None)"
proof (intro conjI impI)
  show "(\<exists>f. Register registry m = Inl f) \<longleftrightarrow> (Name m = [] \<or> map_of (modules registry) (Name m) \<noteq> None)"
    by (auto simp: Register_def Let_def)
  show "\<exists>r. Register registry m = Inr r
           \<and> map_of (modules r) = (map_of (modules registry))(Name m \<mapsto> m)
           \<and> GetModule r (Name m) = (Some m, True)"
    if "Name m \<noteq> [] \<and> map_of (modules registry) (Name m) = None"
  proof -
    let ?r = "registry \<lparr> modules := modules registry @ [(Name m, m)] \<rparr>"
    from that have "Register registry m = Inr ?r"
      by (simp add: Register_def Let_def)
    moreover from that have "map_of (modules ?r) = (map_of (modules registry))(Name m \<mapsto> m)"
      using map_of_snoc_fresh [of "modules registry" "Name m" m] by simp
    moreover from this have "GetModule ?r (Name m) = (Some m, True)"
      by (simp only: GetModule_def) simp
    ultimately show ?thesis by blast
  qed
  show "GetModule registry n = (map_of (modules registry) n, map_of (modules registry) n \<noteq> None)"
    by (simp add: GetModule_def split: option.splits)
qed

theorem register_contract_witness:
  "(\<exists>r. Register empty_registry (example_module ''nmap'' ''stable'' None None) = Inr r
       \<and> GetModule r ''nmap'' = (Some (example_module ''nmap'' ''stable'' None None), True))
   \<and> (\<exists>f. Register (registry_of [example_module ''nmap'' ''stable'' None None])
              (example_module ''nmap'' ''stable'' None None) = Inl f)
   \<and> (\<exists>f. Register empty_registry (example_module [] ''stable'' None None) = Inl f)"
  using register_contract [of empty_registry "example_module ''nmap'' ''stable'' None None" "''nmap''"]
    register_contract [of "registry_of [example_module ''nmap'' ''stable'' None None]"
      "example_module ''nmap'' ''stable'' None None" "''nmap''"]
    register_contract [of empty_registry "example_module [] ''stable'' None None" "''nmap''"]
  by (auto simp: empty_registry_def registry_of_def example_module_sel)


section \<open>Module resolution and the bleeding-edge gate\<close>

lemma add_logs_logf: "add_logs es (logf lvl f msg w) = add_logs (Log lvl f msg # es) w"
  by (simp add: add_logs_def logf_def)

lemma add_logs_Nil: "add_logs [] w = w"
  by (simp add: add_logs_def)

lemma filter_active_char:
  "filter_active mm names (acc, w) = (acc @ survivors mm names, add_logs (prereq_warnings mm names) w)"
proof (induction names arbitrary: acc w)
  case Nil
  show ?case by (simp add: survivors_def prereq_warnings_def add_logs_Nil)
next
  case (Cons n ns)
  show ?case
  proof (cases "mm n")
    case None
    then show ?thesis
      by (simp add: Cons.IH survivors_def prereq_warnings_def)
  next
    case (Some m)
    then show ?thesis
      by (cases "Prerequisites m")
        (simp_all add: Cons.IH survivors_def prereq_warnings_def add_logs_logf)
  qed
qed

lemma fold_moduleMap_SomeD:
  "fold (\<lambda>md m. m(Name md \<mapsto> md)) ms m0 n = Some m \<Longrightarrow> (m \<in> set ms \<and> Name m = n) \<or> m0 n = Some m"
  by (induction ms arbitrary: m0) (fastforce split: if_splits)+

lemma build_moduleMap_SomeD:
  "build_moduleMap (GetModulesByCategory registry category) n = Some m
   \<Longrightarrow> m \<in> snd ` set (modules registry) \<and> Name m = n \<and> Category m = category"
  unfolding build_moduleMap_def GetModulesByCategory_def
  by (drule fold_moduleMap_SomeD) auto

lemma survivors_iff:
  "m \<in> set (survivors mm names) \<longleftrightarrow> (\<exists>n \<in> set names. mm n = Some m \<and> Prerequisites m = None)"
  by (induction names) (auto simp: survivors_def split: option.splits if_splits)

lemma prereq_warnings_iff:
  "e \<in> set (prereq_warnings mm names) \<longleftrightarrow>
     (\<exists>n \<in> set names. \<exists>m err. mm n = Some m \<and> Prerequisites m = Some err
        \<and> e = Log WarnLevel [] (''Module '' @ n @ '' prerequisites not met, skipping: '' @ error_string err))"
  by (induction names) (auto simp: prereq_warnings_def split: option.splits)

lemma executeModules_char:
  "executeModules registry schedule names category w =
    (let mm = build_moduleMap (GetModulesByCategory registry category);
         w1 = add_logs (prereq_warnings mm names) w
     in if survivors mm names = []
        then (Some None, logf WarnLevel [] (''No modules available for category '' @ category) w1)
        else (Wait (run_events schedule (spawn (survivors mm names) w1)),
              world (run_events schedule (spawn (survivors mm names) w1))))"
  by (simp add: executeModules_def Let_def filter_active_char)


lemma map_filter_app: "List.map_filter f (xs @ ys) = List.map_filter f xs @ List.map_filter f ys"
  by (simp add: map_filter_def)

lemma unresolved_dropped:
  assumes "mm n = None"
  shows "survivors mm (pre @ n # post) = survivors mm (pre @ post)"
    and "prereq_warnings mm (pre @ n # post) = prereq_warnings mm (pre @ post)"
  using assms by (simp_all add: survivors_def prereq_warnings_def map_filter_app)

lemma scan_add_logs: "scan (orch (add_logs es w)) = scan (orch w)"
  by (simp add: add_logs_def)

lemma scan_logf: "scan (orch (logf lvl f msg w)) = scan (orch w)"
  by (simp add: logf_def)

text \<open>
  C7. \<open>executeModules\<close> runs exactly the survivors of its requested names: the modules
  registered under a requested name in the phase's category whose prerequisites check
  returns nil. A name with no module registered in the category changes nothing at all;
  a failed prerequisites check costs one warning and nothing else. With no survivor the
  function returns nil after a warning, and the scan is untouched.
\<close>

theorem module_filtering:
  "executeModules registry schedule names category w =
     (if survivors (resolve registry category) names = []
      then (Some None, logf WarnLevel [] (''No modules available for category '' @ category)
                         (add_logs (prereq_warnings (resolve registry category) names) w))
      else (Wait (run_events schedule (spawn (survivors (resolve registry category) names)
                     (add_logs (prereq_warnings (resolve registry category) names) w))),
            world (run_events schedule (spawn (survivors (resolve registry category) names)
                     (add_logs (prereq_warnings (resolve registry category) names) w)))))
   \<and> (m \<in> set (survivors (resolve registry category) names) \<longleftrightarrow>
        (\<exists>n \<in> set names. resolve registry category n = Some m \<and> Prerequisites m = None))
   \<and> (e \<in> set (prereq_warnings (resolve registry category) names) \<longleftrightarrow>
        (\<exists>n \<in> set names. \<exists>m err. resolve registry category n = Some m \<and> Prerequisites m = Some err
           \<and> e = Log WarnLevel [] (''Module '' @ n @ '' prerequisites not met, skipping: '' @ error_string err)))
   \<and> ((\<forall>m \<in> snd ` set (modules registry). Name m = n \<longrightarrow> Category m \<noteq> category) \<longrightarrow>
        resolve registry category n = None
        \<and> executeModules registry schedule (pre @ n # post) category w
            = executeModules registry schedule (pre @ post) category w)
   \<and> (survivors (resolve registry category) names = [] \<longrightarrow>
        fst (executeModules registry schedule names category w) = Some None
        \<and> scan (orch (snd (executeModules registry schedule names category w))) = scan (orch w))"
proof (intro conjI impI)
  show c: "executeModules registry schedule names category w =
     (if survivors (resolve registry category) names = []
      then (Some None, logf WarnLevel [] (''No modules available for category '' @ category)
                         (add_logs (prereq_warnings (resolve registry category) names) w))
      else (Wait (run_events schedule (spawn (survivors (resolve registry category) names)
                     (add_logs (prereq_warnings (resolve registry category) names) w))),
            world (run_events schedule (spawn (survivors (resolve registry category) names)
                     (add_logs (prereq_warnings (resolve registry category) names) w)))))"
    by (simp add: executeModules_char resolve_def Let_def)
  show "m \<in> set (survivors (resolve registry category) names) \<longleftrightarrow>
        (\<exists>n \<in> set names. resolve registry category n = Some m \<and> Prerequisites m = None)"
    by (rule survivors_iff)
  show "e \<in> set (prereq_warnings (resolve registry category) names) \<longleftrightarrow>
        (\<exists>n \<in> set names. \<exists>m err. resolve registry category n = Some m \<and> Prerequisites m = Some err
           \<and> e = Log WarnLevel [] (''Module '' @ n @ '' prerequisites not met, skipping: '' @ error_string err))"
    by (rule prereq_warnings_iff)
  show n: "resolve registry category n = None"
    if "\<forall>m \<in> snd ` set (modules registry). Name m = n \<longrightarrow> Category m \<noteq> category"
  proof (cases "resolve registry category n")
    case (Some m)
    then show ?thesis
      using that build_moduleMap_SomeD [of registry category n m] by (auto simp: resolve_def)
  qed simp
  show "executeModules registry schedule (pre @ n # post) category w
            = executeModules registry schedule (pre @ post) category w"
    if "\<forall>m \<in> snd ` set (modules registry). Name m = n \<longrightarrow> Category m \<noteq> category"
    using unresolved_dropped [of "resolve registry category" n pre post] n [OF that]
    by (simp add: executeModules_char resolve_def Let_def)
  show "fst (executeModules registry schedule names category w) = Some None"
    if "survivors (resolve registry category) names = []"
    using that by (simp add: c)
  show "scan (orch (snd (executeModules registry schedule names category w))) = scan (orch w)"
    if "survivors (resolve registry category) names = []"
    using that by (simp add: c scan_add_logs scan_logf)
qed

lemma resolve_stable_nmap:
  "resolve (registry_of [example_module ''nmap'' ''stable'' p r]) ''stable''
     = [''nmap'' \<mapsto> example_module ''nmap'' ''stable'' p r]"
  by (simp add: resolve_def build_moduleMap_def GetModulesByCategory_def registry_of_def example_module_sel)

theorem module_filtering_witness:
  "resolve (registry_of
        [example_module ''nmap'' ''stable'' (Some (Errorf ''nmap not found in PATH'')) None]) ''stable''
        ''naabu'' = None
   \<and> survivors (resolve (registry_of
        [example_module ''nmap'' ''stable'' (Some (Errorf ''nmap not found in PATH'')) None]) ''stable'')
        [''naabu'', ''nmap'', ''httpx''] = []
   \<and> executeModules (registry_of
        [example_module ''nmap'' ''stable'' (Some (Errorf ''nmap not found in PATH'')) None])
        [] [''naabu'', ''nmap'', ''httpx''] ''stable'' (example_world False [] [] Map.empty)
      = (Some None,
         add_logs [Log WarnLevel [] ''Module nmap prerequisites not met, skipping: nmap not found in PATH'',
                   Log WarnLevel [] ''No modules available for category stable'']
           (example_world False [] [] Map.empty))"
proof -
  let ?r = "registry_of [example_module ''nmap'' ''stable'' (Some (Errorf ''nmap not found in PATH'')) None]"
  have s: "survivors (resolve ?r ''stable'') [''naabu'', ''nmap'', ''httpx''] = []"
    by (simp add: resolve_stable_nmap survivors_def example_module_sel)
  have p: "prereq_warnings (resolve ?r ''stable'') [''naabu'', ''nmap'', ''httpx'']
       = [Log WarnLevel [] ''Module nmap prerequisites not met, skipping: nmap not found in PATH'']"
    by (simp add: resolve_stable_nmap prereq_warnings_def example_module_sel)
  have h: "\<forall>m \<in> snd ` set (modules ?r). Name m = ''naabu'' \<longrightarrow> Category m \<noteq> ''stable''"
    by (simp add: registry_of_def example_module_sel)
  show ?thesis
    using module_filtering [of ?r "[]" "[''naabu'', ''nmap'', ''httpx'']" "''stable''"
        "example_world False [] [] Map.empty" _ _ "''naabu''" "[]" "[''nmap'', ''httpx'']"] s p h
    by (simp add: add_logs_def logf_def)
qed

text \<open>
  C8. With the bleeding-edge flag off the BleedingEdge phase returns nil at once, having
  logged one line and run no module: the scan is as before, whatever is registered. With
  the flag on it is \<open>executeModules\<close> on the phase's module list. The flag is read once,
  for the phase.
\<close>

theorem bleeding_edge_gate:
  "(\<not> cfg_BleedingEdge (config (orch w)) \<longrightarrow>
      runBleedingEdgePhase registry schedule w
        = (Some None, logf InfoLevel [] ''Skipping bleeding-edge modules (not enabled)'' w)
      \<and> scan (orch (snd (runBleedingEdgePhase registry schedule w))) = scan (orch w))
   \<and> (cfg_BleedingEdge (config (orch w)) \<longrightarrow>
      runBleedingEdgePhase registry schedule w
        = executeModules registry schedule bleedingModules ''bleeding-edge'' w)"
  by (simp add: runBleedingEdgePhase_def logf_def)

theorem bleeding_edge_gate_witness:
  "\<not> cfg_BleedingEdge (config (orch (example_world False [] [] Map.empty)))
   \<and> runBleedingEdgePhase (registry_of bleeding_edge_modules) [] (example_world False [] [] Map.empty)
       = (Some None, logf InfoLevel [] ''Skipping bleeding-edge modules (not enabled)''
                       (example_world False [] [] Map.empty))
   \<and> cfg_BleedingEdge (config (orch (example_world True [] [] Map.empty)))
   \<and> runBleedingEdgePhase (registry_of bleeding_edge_modules) [] (example_world True [] [] Map.empty)
       = executeModules (registry_of bleeding_edge_modules) [] bleedingModules ''bleeding-edge''
           (example_world True [] [] Map.empty)"
  using bleeding_edge_gate [of "example_world False [] [] Map.empty" "registry_of bleeding_edge_modules" "[]"]
    bleeding_edge_gate [of "example_world True [] [] Map.empty" "registry_of bleeding_edge_modules" "[]"]
  by (simp add: example_world_def example_config_def)

section \<open>Scoring phase, summary and the phase loop\<close>

lemma alive_fold:
  "fold alive_step hosts sm = sm \<lparr> AliveHosts := AliveHosts sm + count_where is_alive hosts \<rparr>"
  by (induction hosts arbitrary: sm) (simp_all add: alive_step_def count_where_def is_alive_def)

lemma count_hosts_closed:
  "count_hosts hosts sm = sm \<lparr> TotalHosts := int (length hosts), AliveHosts := count_where is_alive hosts \<rparr>"
  by (simp add: count_hosts_def alive_fold)

lemma open_fold:
  "fold open_step ports sm
   = sm \<lparr> OpenPorts := OpenPorts sm + count_where (\<lambda>p. State p = ''open'') ports \<rparr>"
  by (induction ports arbitrary: sm) (simp_all add: open_step_def count_where_def)

lemma ports_fold:
  "fold port_step hosts sm
   = sm \<lparr> TotalPorts := TotalPorts sm + int (length (all_ports hosts)),
          OpenPorts := OpenPorts sm + count_where (\<lambda>p. State p = ''open'') (all_ports hosts) \<rparr>"
  by (induction hosts arbitrary: sm) (simp_all add: port_step_def open_fold all_ports_def count_where_def)

lemma count_ports_closed:
  "count_ports hosts sm = sm \<lparr> TotalPorts := int (length (all_ports hosts)),
       OpenPorts := count_where (\<lambda>p. State p = ''open'') (all_ports hosts) \<rparr>"
  by (simp add: count_ports_def ports_fold)

lemma vulns_fold:
  "fold vuln_step vulns sm
   = sm \<lparr> CriticalVulns := CriticalVulns sm + count_where (\<lambda>v. Severity v = ''critical'') vulns,
          HighVulns := HighVulns sm + count_where (\<lambda>v. Severity v = ''high'') vulns,
          MediumVulns := MediumVulns sm + count_where (\<lambda>v. Severity v = ''medium'') vulns,
          LowVulns := LowVulns sm + count_where (\<lambda>v. Severity v = ''low'') vulns,
          ExploitableVulns := ExploitableVulns sm + count_where Exploitable vulns \<rparr>"
  by (induction vulns arbitrary: sm) (simp_all add: vuln_step_def count_severity_def count_where_def Let_def)

lemma count_vulns_closed:
  "count_vulns vulns sm = sm \<lparr> TotalVulns := int (length vulns),
          CriticalVulns := count_where (\<lambda>v. Severity v = ''critical'') vulns,
          HighVulns := count_where (\<lambda>v. Severity v = ''high'') vulns,
          MediumVulns := count_where (\<lambda>v. Severity v = ''medium'') vulns,
          LowVulns := count_where (\<lambda>v. Severity v = ''low'') vulns,
          ExploitableVulns := count_where Exploitable vulns \<rparr>"
  by (simp add: count_vulns_def vulns_fold)

lemma updateScanSummary_closed:
  "updateScanSummary orc =
     orc \<lparr> scan := (scan orc) \<lparr> Results := (Results (scan orc))
       \<lparr> Summary := recount (Hosts (Results (scan orc))) (Vulnerabilities (Results (scan orc)))
                       (Summary (Results (scan orc))) \<rparr> \<rparr> \<rparr>"
  by (simp add: updateScanSummary_def Let_def count_hosts_closed count_ports_closed count_vulns_closed recount_def)

lemma recount_idem: "recount hosts vulns (recount hosts vulns sm) = recount hosts vulns sm"
  by (simp add: recount_def)

text \<open>
  C10, as the code has it. Running \<open>updateScanSummary\<close> twice gives what running it once
  gives. The pass recomputes, from the hosts and the vulnerabilities alone, the total and
  alive host counts (alive: at least one port or one service), the total and open port
  counts, the vulnerability counts by severity and the exploitable count. The high-risk
  count is not among them: the pass never assigns it and leaves it as the scoring loop
  left it, like the hosts and the vulnerabilities themselves.
\<close>

theorem summary_idempotent:
  "updateScanSummary (updateScanSummary orc) = updateScanSummary orc
   \<and> Summary (Results (scan (updateScanSummary orc)))
       = recount (Hosts (Results (scan orc))) (Vulnerabilities (Results (scan orc)))
           (Summary (Results (scan orc)))
   \<and> HighRiskVulns (Summary (Results (scan (updateScanSummary orc))))
       = HighRiskVulns (Summary (Results (scan orc)))
   \<and> Hosts (Results (scan (updateScanSummary orc))) = Hosts (Results (scan orc))
   \<and> Vulnerabilities (Results (scan (updateScanSummary orc))) = Vulnerabilities (Results (scan orc))"
  by (simp add: updateScanSummary_closed recount_idem) (simp add: recount_def)

theorem summary_idempotent_witness:
  "Summary (Results (scan (updateScanSummary (orch (example_world False example_hosts
       [example_vuln ''critical'' True (Finite 0) Map.empty, example_vuln ''low'' False (Finite 0) Map.empty] Map.empty)))))
     = empty_summary \<lparr> TotalHosts := 2, AliveHosts := 1, TotalPorts := 2, OpenPorts := 1,
         TotalVulns := 2, CriticalVulns := 1, LowVulns := 1, ExploitableVulns := 1 \<rparr>"
  using summary_idempotent [of "orch (example_world False example_hosts
       [example_vuln ''critical'' True (Finite 0) Map.empty, example_vuln ''low'' False (Finite 0) Map.empty] Map.empty)"]
  by (simp add: example_world_def example_scan_def example_hosts_def example_vuln_def recount_def
      count_where_def is_alive_def all_ports_def empty_summary_def)

lemma CalculateRiskScore_cong:
  "Context s' = Context s \<Longrightarrow> CalculateRiskScore e v s' = CalculateRiskScore e v s"
  by (simp add: CalculateRiskScore_def GetContext_def)

lemma CalculateRiskScore_RiskScore_update:
  "CalculateRiskScore e (v \<lparr> RiskScore := r \<rparr>) s = CalculateRiskScore e v s"
  by (simp add: CalculateRiskScore_def)

lemma list_step:
  assumes "k < length vs"
  shows "(map f (take k vs) @ drop k vs)[k := f (vs ! k)] = map f (take (Suc k) vs) @ drop (Suc k) vs"
proof -
  have "drop k vs = vs ! k # drop (Suc k) vs"
    using assms by (simp add: Cons_nth_drop_Suc)
  then have "(map f (take k vs) @ drop k vs)[k := f (vs ! k)]
      = map f (take k vs) @ f (vs ! k) # drop (Suc k) vs"
    using assms by (simp add: list_update_append)
  also have "\<dots> = map f (take (Suc k) vs) @ drop (Suc k) vs"
    using assms by (simp add: take_Suc_conv_app_nth)
  finally show ?thesis .
qed

lemma nth_mixed:
  "k < length vs \<Longrightarrow> (map f (take k vs) @ drop k vs) ! k = vs ! k"
  by (simp add: nth_append)

lemma score_step_scored_upto:
  assumes "k < length (Vulnerabilities (Results (scan orc)))"
  shows "score_step k (scored_upto k orc) = scored_upto (Suc k) orc"
proof -
  let ?vs = "Vulnerabilities (Results (scan orc))"
  have v: "Vulnerabilities (Results (scan (scored_upto k orc))) ! k = ?vs ! k"
    using assms by (simp add: scored_upto_def nth_mixed)
  have sc: "CalculateRiskScore (scorer (scored_upto k orc)) (?vs ! k) (scan (scored_upto k orc))
      = CalculateRiskScore (scorer orc) (?vs ! k) (scan orc)"
    by (rule trans [OF CalculateRiskScore_cong]) (simp_all add: scored_upto_def)
  have t: "take (Suc k) ?vs = take k ?vs @ [?vs ! k]"
    using assms by (simp add: take_Suc_conv_app_nth)
  have l: "(map (scored orc) (take k ?vs) @ drop k ?vs)[k := scored orc (?vs ! k)]
      = map (scored orc) (take (Suc k) ?vs) @ drop (Suc k) ?vs"
    using assms by (rule list_step)
  show ?thesis
    unfolding score_step_def Let_def v sc
    using l by (simp add: scored_upto_def t count_where_def is_high_risk_def scored_def)
qed

lemma fold_score_step:
  "k \<le> length (Vulnerabilities (Results (scan orc))) \<Longrightarrow> fold score_step [0 ..< k] orc = scored_upto k orc"
proof (induction k)
  case 0
  show ?case by (simp add: scored_upto_def count_where_def)
next
  case (Suc k)
  then show ?case by (simp add: score_step_scored_upto)
qed

lemma score_all_closed:
  "score_all orc = scored_upto (length (Vulnerabilities (Results (scan orc)))) orc"
  by (simp add: score_all_def fold_score_step)

text \<open>
  C9. The scoring phase writes every vulnerability's score to its risk-score field and
  leaves \<open>HighRiskVulns\<close> at its old value plus the number of vulnerabilities whose
  score is at least 70: each iteration adds one when the score it computed is at least
  70 and nothing otherwise. \<open>CalculateRiskScore\<close> returns a number and has no summary to
  change; the counting is the phase's.
\<close>

theorem high_risk_counter:
  "HighRiskVulns (the_summary (snd (runScoringPhase w)))
     = HighRiskVulns (the_summary w)
       + count_where (is_high_risk (orch w)) (Vulnerabilities (Results (scan (orch w))))
   \<and> Vulnerabilities (Results (scan (orch (snd (runScoringPhase w)))))
     = map (scored (orch w)) (Vulnerabilities (Results (scan (orch w))))
   \<and> fst (runScoringPhase w) = Some None
   \<and> HighRiskVulns (Summary (Results (scan (score_step i orc))))
     = HighRiskVulns (Summary (Results (scan orc)))
       + (if fge (CalculateRiskScore (scorer orc) (Vulnerabilities (Results (scan orc)) ! i) (scan orc))
                 (Finite 70)
          then 1 else 0)"
proof (intro conjI)
  let ?o1 = "orch (logf InfoLevel [] ''Calculating risk scores'' w)"
  have same: "scan ?o1 = scan (orch w)" "scorer ?o1 = scorer (orch w)"
    by (simp_all add: logf_def)
  have hr: "is_high_risk ?o1 = is_high_risk (orch w)" and sc: "scored ?o1 = scored (orch w)"
    by (rule ext, simp add: is_high_risk_def same)+ (rule ext, simp add: scored_def same)
  have fin: "orch (snd (runScoringPhase w)) = updateScanSummary (set_overall (score_all ?o1))"
    by (simp add: runScoringPhase_def Let_def)
  show "HighRiskVulns (the_summary (snd (runScoringPhase w)))
     = HighRiskVulns (the_summary w)
       + count_where (is_high_risk (orch w)) (Vulnerabilities (Results (scan (orch w))))"
    unfolding the_summary_def fin score_all_closed
    by (simp add: updateScanSummary_closed set_overall_def Let_def scored_upto_def recount_def same hr)
  show "Vulnerabilities (Results (scan (orch (snd (runScoringPhase w)))))
     = map (scored (orch w)) (Vulnerabilities (Results (scan (orch w))))"
    unfolding fin score_all_closed
    by (simp add: updateScanSummary_closed set_overall_def Let_def scored_upto_def same sc)
  show "fst (runScoringPhase w) = Some None"
    by (simp add: runScoringPhase_def Let_def)
  show "HighRiskVulns (Summary (Results (scan (score_step i orc))))
     = HighRiskVulns (Summary (Results (scan orc)))
       + (if fge (CalculateRiskScore (scorer orc) (Vulnerabilities (Results (scan orc)) ! i) (scan orc))
                 (Finite 70)
          then 1 else 0)"
    by (simp add: score_step_def Let_def)
qed

lemma score_drifted:
  "round2 (cap100 (fmul (fmul (fmul (Finite 10) (Finite (3 / 2)))
                              (fadd (Finite 1) (fmul (Finite 20) (fl (1 / 5)))))
                        (Finite 1))) = Finite 75"
  "round2 (cap100 (fmul (fmul (fmul (Finite (5 / 2)) (Finite (3 / 2)))
                              (fadd (Finite 1) (fmul (Finite 20) (fl (1 / 5)))))
                        (Finite 1))) = Finite (75 / 4)"
  by code_simp+

lemma ex_scores:
  "CalculateRiskScore NewEngine (example_vuln ''critical'' True (Finite 0) Map.empty)
      (example_scan b hs vs drifted) = Finite 75"
  "CalculateRiskScore NewEngine (example_vuln ''low'' True (Finite 0) Map.empty)
      (example_scan b hs vs drifted) = Finite (75 / 4)"
proof -
  have "raw_score (example_vuln ''critical'' True (Finite 0) Map.empty) (example_scan b hs vs drifted)
      = fmul (fmul (fmul (Finite 10) (Finite (3 / 2)))
                   (fadd (Finite 1) (fmul (Finite 20) (fl (1 / 5)))))
             (Finite 1)"
    by (simp add: raw_score_def severityWeight_def supplyChainDrift_def llmConfidenceMeta_def
        example_vuln_def example_scan_def drifted_def)
  then show "CalculateRiskScore NewEngine (example_vuln ''critical'' True (Finite 0) Map.empty)
      (example_scan b hs vs drifted) = Finite 75"
    by (simp only: CalculateRiskScore_raw score_drifted)
  have "raw_score (example_vuln ''low'' True (Finite 0) Map.empty) (example_scan b hs vs drifted)
      = fmul (fmul (fmul (Finite (5 / 2)) (Finite (3 / 2)))
                   (fadd (Finite 1) (fmul (Finite 20) (fl (1 / 5)))))
             (Finite 1)"
    by (simp add: raw_score_def severityWeight_def supplyChainDrift_def llmConfidenceMeta_def
        example_vuln_def example_scan_def drifted_def)
  then show "CalculateRiskScore NewEngine (example_vuln ''low'' True (Finite 0) Map.empty)
      (example_scan b hs vs drifted) = Finite (75 / 4)"
    by (simp only: CalculateRiskScore_raw score_drifted)
qed

theorem high_risk_counter_witness:
  "HighRiskVulns (the_summary (snd (runScoringPhase (example_world False []
      [example_vuln ''critical'' True (Finite 0) Map.empty, example_vuln ''low'' True (Finite 0) Map.empty] drifted)))) = 1"
proof -
  let ?vs = "[example_vuln ''critical'' True (Finite 0) Map.empty, example_vuln ''low'' True (Finite 0) Map.empty]"
  let ?w = "example_world False [] ?vs drifted"
  have o: "scorer (orch ?w) = NewEngine" "scan (orch ?w) = example_scan False [] ?vs drifted"
    by (simp_all add: example_world_def)
  have v: "Vulnerabilities (Results (scan (orch ?w))) = ?vs"
    by (simp add: example_world_def example_scan_def)
  have h: "HighRiskVulns (the_summary ?w) = 0"
    by (simp add: the_summary_def example_world_def example_scan_def empty_summary_def)
  have c: "count_where (is_high_risk (orch ?w)) ?vs = 1"
    by (simp add: count_where_def is_high_risk_def o ex_scores)
  show ?thesis
    using high_risk_counter [of ?w] by (simp only: v h c)
qed

lemma scoring_phase_orch:
  "orch (snd (runScoringPhase w))
     = updateScanSummary (set_overall (score_all (orch (logf InfoLevel [] ''Calculating risk scores'' w))))"
  by (simp add: runScoringPhase_def Let_def)

lemma scoring_phase_keeps:
  "scorer (orch (snd (runScoringPhase w))) = scorer (orch w)"
  "Context (scan (orch (snd (runScoringPhase w)))) = Context (scan (orch w))"
  unfolding scoring_phase_orch score_all_closed
  by (simp_all add: updateScanSummary_closed set_overall_def Let_def scored_upto_def logf_def)

lemma scoring_phase_count:
  "HighRiskVulns (the_summary (snd (runScoringPhase w)))
     = HighRiskVulns (the_summary w)
       + count_where (is_high_risk (orch w)) (Vulnerabilities (Results (scan (orch w))))"
proof -
  let ?o1 = "orch (logf InfoLevel [] ''Calculating risk scores'' w)"
  have same: "scan ?o1 = scan (orch w)" "scorer ?o1 = scorer (orch w)"
    by (simp_all add: logf_def)
  have hr: "is_high_risk ?o1 = is_high_risk (orch w)"
    by (rule ext) (simp add: is_high_risk_def same)
  show ?thesis
    unfolding the_summary_def scoring_phase_orch score_all_closed
    by (simp add: updateScanSummary_closed set_overall_def Let_def scored_upto_def recount_def same hr)
qed

lemma scoring_phase_vulns:
  "Vulnerabilities (Results (scan (orch (snd (runScoringPhase w)))))
     = map (scored (orch w)) (Vulnerabilities (Results (scan (orch w))))"
proof -
  let ?o1 = "orch (logf InfoLevel [] ''Calculating risk scores'' w)"
  have same: "scan ?o1 = scan (orch w)" "scorer ?o1 = scorer (orch w)"
    by (simp_all add: logf_def)
  have sc: "scored ?o1 = scored (orch w)"
    by (rule ext) (simp add: scored_def same)
  show ?thesis
    unfolding scoring_phase_orch score_all_closed
    by (simp add: updateScanSummary_closed set_overall_def Let_def scored_upto_def same sc)
qed

text \<open>
  C10 as worded fails either way it is read. If the pass is \<open>updateScanSummary\<close>, the
  high-risk count is not recomputed: with no vulnerability at all and a count of 7 left
  in the summary, the count is 7 after the pass, where a recount gives 0. If the pass
  takes in the scoring loop, which does the counting, it is not idempotent: on one
  vulnerability that scores 75 the count is 1 after one run and 2 after two.
\<close>

theorem summary_counterexample:
  "HighRiskVulns (Summary (Results (scan (updateScanSummary (orch stale_world))))) = 7
   \<and> count_where (is_high_risk (orch stale_world))
         (Vulnerabilities (Results (scan (orch stale_world)))) = 0
   \<and> HighRiskVulns (the_summary (snd (runScoringPhase drifted_world))) = 1
   \<and> HighRiskVulns (the_summary (snd (runScoringPhase (snd (runScoringPhase drifted_world))))) = 2"
proof -
  let ?v = "example_vuln ''critical'' True (Finite 0) Map.empty"
  have stale: "HighRiskVulns (Summary (Results (scan (updateScanSummary (orch stale_world))))) = 7"
    by (simp add: updateScanSummary_closed recount_def stale_world_def set_summary_def set_scan_def
        example_world_def example_scan_def empty_summary_def)
  have none: "Vulnerabilities (Results (scan (orch stale_world))) = []"
    by (simp add: stale_world_def set_summary_def set_scan_def example_world_def example_scan_def)
  have o_sc: "scorer (orch drifted_world) = NewEngine"
    and o_ctx: "Context (scan (orch drifted_world)) = drifted"
    and o_scan: "scan (orch drifted_world) = example_scan False [] [?v] drifted"
    and o_vs: "Vulnerabilities (Results (scan (orch drifted_world))) = [?v]"
    and o_h: "HighRiskVulns (the_summary drifted_world) = 0"
    by (simp_all add: drifted_world_def example_world_def example_scan_def the_summary_def
        empty_summary_def)
  have h: "is_high_risk (orch drifted_world) ?v"
    by (simp add: is_high_risk_def o_sc o_scan ex_scores)
  have once: "HighRiskVulns (the_summary (snd (runScoringPhase drifted_world))) = 1"
    using h by (simp add: scoring_phase_count o_vs o_h count_where_def)
  let ?w2 = "snd (runScoringPhase drifted_world)"
  have "CalculateRiskScore (scorer (orch ?w2)) (scored (orch drifted_world) ?v) (scan (orch ?w2))
      = CalculateRiskScore NewEngine ?v (example_scan False [] [?v] drifted)"
    unfolding scored_def CalculateRiskScore_RiskScore_update scoring_phase_keeps o_sc
    by (rule CalculateRiskScore_cong) (simp add: scoring_phase_keeps o_ctx example_scan_def)
  then have h2: "is_high_risk (orch ?w2) (scored (orch drifted_world) ?v)"
    by (simp add: is_high_risk_def ex_scores)
  have twice: "HighRiskVulns (the_summary (snd (runScoringPhase ?w2))) = 2"
    using h2 once by (simp add: scoring_phase_count [of ?w2] scoring_phase_vulns o_vs count_where_def)
  from stale none once twice show ?thesis by (simp add: count_where_def)
qed

lemma run_phases_append:
  "run_phases (pre @ post) w =
     (case run_phases pre w of (Some None, w') \<Rightarrow> run_phases post w' | r \<Rightarrow> r)"
proof (induction pre arbitrary: w)
  case Nil
  show ?case by simp
next
  case (Cons p pre)
  obtain name fn where p: "p = (name, fn)" by (cases p)
  show ?case
    by (simp add: p Cons.IH Let_def split: prod.splits option.splits)
qed

lemma ctx_logf: "ctx (logf lvl f msg w) = ctx w"
  by (simp add: logf_def)

lemma Execute_returns_loop_result:
  assumes "validateTargets (orch w) = None"
  shows "fst (Execute registry s1 s2 s3 s4 duration w)
           = fst (run_phases (the_phases registry s1 s2 s3 s4)
                   (case Initialize (sandbox (orch w)) of
                      Some err \<Rightarrow> logf WarnLevel []
                        (''Sandbox initialization failed, continuing without sandbox: '' @ error_string err)
                        (logf InfoLevel [] ''Starting TraceHawk X scan'' w)
                    | None \<Rightarrow> logf InfoLevel [] ''Starting TraceHawk X scan'' w))"
proof -
  have v: "validateTargets (orch (logf InfoLevel [] ''Starting TraceHawk X scan'' w)) = None"
    using assms by (simp add: validateTargets_def logf_def)
  have i: "Initialize (sandbox (orch (logf InfoLevel [] ''Starting TraceHawk X scan'' w)))
             = Initialize (sandbox (orch w))"
    by (simp add: logf_def)
  show ?thesis
    unfolding Execute_def Let_def v i
    by (simp split: prod.splits option.splits)
qed

text \<open>
  C4. After phases that all returned nil with no cancellation seen, the next phase
  decides the run: if it returns an error, the run returns that error wrapped with the
  phase's name and no later phase is started; if it returns nil and the context is done
  at the check that follows, the run returns the context's own error, which is no phase
  failure; if it returns nil and the context is not done, the run goes on with the
  phases that remain.
\<close>

theorem phase_transitions:
  "run_phases pre w = (Some None, w1) \<longrightarrow>
     (fn (logf InfoLevel [] (''Phase: '' @ name) w1) = (Some (Some err), w2) \<longrightarrow>
        run_phases (pre @ (name, fn) # post) w
          = (Some (Some (Wrapf (''phase '' @ name @ '' failed'') err)), w2))
     \<and> (fn (logf InfoLevel [] (''Phase: '' @ name) w1) = (Some None, w2) \<and> ctx w2 = Some c \<longrightarrow>
        run_phases (pre @ (name, fn) # post) w
          = (Some (Some (ContextErr c)), logf InfoLevel [] (''Phase '' @ name @ '' completed'') w2)
        \<and> ContextErr c \<noteq> Wrapf (''phase '' @ name @ '' failed'') err)
     \<and> (fn (logf InfoLevel [] (''Phase: '' @ name) w1) = (Some None, w2) \<and> ctx w2 = None \<longrightarrow>
        run_phases (pre @ (name, fn) # post) w
          = run_phases post (logf InfoLevel [] (''Phase '' @ name @ '' completed'') w2))"
  by (simp add: run_phases_append Let_def ctx_logf)

lemma discovery_ok:
  "run_phases [(''Discovery'', ok_phase)] (example_world False [] [] Map.empty) = (Some None, after_discovery)"
  by (simp add: ok_phase_def after_discovery_def Let_def ctx_logf example_world_def)

theorem phase_transitions_witness:
  "run_phases [(''Discovery'', ok_phase)] (example_world False [] [] Map.empty) = (Some None, after_discovery)
   \<and> run_phases ([(''Discovery'', ok_phase)] @ (''Scanning'', failing_phase) # [(''Scoring'', runScoringPhase)])
         (example_world False [] [] Map.empty)
       = (Some (Some (Wrapf ''phase Scanning failed'' (Errorf ''no route to host''))),
          logf InfoLevel [] ''Phase: Scanning'' after_discovery)
   \<and> run_phases ([(''Discovery'', ok_phase)] @ (''Scanning'', interrupted_phase) # [(''Scoring'', runScoringPhase)])
         (example_world False [] [] Map.empty)
       = (Some (Some (ContextErr Canceled)),
          logf InfoLevel [] ''Phase Scanning completed''
            ((logf InfoLevel [] ''Phase: Scanning'' after_discovery) \<lparr> ctx := Some Canceled \<rparr>))
   \<and> run_phases ([(''Discovery'', ok_phase)] @ (''Scanning'', ok_phase) # [(''Scoring'', runScoringPhase)])
         (example_world False [] [] Map.empty)
       = run_phases [(''Scoring'', runScoringPhase)]
           (logf InfoLevel [] ''Phase Scanning completed'' (logf InfoLevel [] ''Phase: Scanning'' after_discovery))"
proof -
  have c: "ctx after_discovery = None"
    by (simp add: after_discovery_def ctx_logf example_world_def)
  show ?thesis
    using discovery_ok
      phase_transitions [where pre = "[(''Discovery'', ok_phase)]" and w = "example_world False [] [] Map.empty"
        and ?w1.0 = after_discovery and fn = failing_phase and name = "''Scanning''" and err = "Errorf ''no route to host''"
        and ?w2.0 = "logf InfoLevel [] ''Phase: Scanning'' after_discovery" and c = Canceled and post = "[(''Scoring'', runScoringPhase)]"]
      phase_transitions [where pre = "[(''Discovery'', ok_phase)]" and w = "example_world False [] [] Map.empty"
        and ?w1.0 = after_discovery and fn = interrupted_phase and name = "''Scanning''" and err = "Errorf ''no route to host''"
        and ?w2.0 = "(logf InfoLevel [] ''Phase: Scanning'' after_discovery) \<lparr> ctx := Some Canceled \<rparr>" and c = Canceled and post = "[(''Scoring'', runScoringPhase)]"]
      phase_transitions [where pre = "[(''Discovery'', ok_phase)]" and w = "example_world False [] [] Map.empty"
        and ?w1.0 = after_discovery and fn = ok_phase and name = "''Scanning''" and err = "Errorf ''no route to host''"
        and ?w2.0 = "logf InfoLevel [] ''Phase: Scanning'' after_discovery" and c = Canceled and post = "[(''Scoring'', runScoringPhase)]"]
    by (simp add: failing_phase_def interrupted_phase_def ok_phase_def c ctx_logf)
qed

section \<open>The admission pool and the executed-modules trail\<close>

lemma count_update:
  "i < length xs \<Longrightarrow>
   length (filter P (xs[i := y])) + (if P (xs ! i) then 1 else 0)
     = length (filter P xs) + (if P y then 1 else 0)"
proof (induction xs arbitrary: i)
  case Nil
  then show ?case by simp
next
  case (Cons x xs)
  show ?case
  proof (cases i)
    case 0
    then show ?thesis by simp
  next
    case (Suc j)
    with Cons.prems have "j < length xs" by simp
    from Cons.IH [OF this] show ?thesis by (simp add: Suc)
  qed
qed

lemma slots_set_pc:
  "i < length (pcs g) \<Longrightarrow>
   slots_held (set_pc i p g) + (if holds_slot (pcs g ! i) then 1 else 0)
     = slots_held g + (if holds_slot p then 1 else 0)"
  unfolding slots_held_def set_pc_def using count_update [of i "pcs g" holds_slot p] by simp

lemma slots_held_upd [simp]:
  "slots_held (g \<lparr> sem := n \<rparr>) = slots_held g"
  "slots_held (g \<lparr> world := w \<rparr>) = slots_held g"
  "slots_held (g \<lparr> first_err := e \<rparr>) = slots_held g"
  by (simp_all add: slots_held_def)

lemma set_pc_fields [simp]:
  "sem (set_pc i p g) = sem g" "mods (set_pc i p g) = mods g" "world (set_pc i p g) = world g"
  "first_err (set_pc i p g) = first_err g" "length (pcs (set_pc i p g)) = length (pcs g)"
  by (simp_all add: set_pc_def)

lemma balanced_spawn: "balanced (spawn ms w)"
  by (simp add: balanced_def spawn_def slots_held_def sem_capacity_def)

lemma go_step_out:
  assumes "\<not> (i < length (pcs g) \<and> i < length (mods g))"
  shows "go_step i g = g"
  unfolding go_step_def by (simp only: assms if_False)

lemma go_step_AtSelect:
  assumes "i < length (pcs g)" "i < length (mods g)" "pcs g ! i = AtSelect"
  shows "go_step i g = (if sem g < sem_capacity then set_pc i AtRun (g \<lparr> sem := sem g + 1 \<rparr>) else g)"
  using assms by (simp add: go_step_def)

lemma go_step_AtRun:
  assumes "i < length (pcs g)" "i < length (mods g)" "pcs g ! i = AtRun"
    and "call_module (logf InfoLevel (Name (mods g ! i)) ''Executing module'' (world g)) (mods g ! i) = (r, s)"
  shows "go_step i g =
    (case r of
       Some err \<Rightarrow> set_pc i AtRelease (g \<lparr> world :=
          logf InfoLevel (Name (mods g ! i)) ''Module execution completed''
            (logf ErrorLevel (Name (mods g ! i)) (''Module execution failed: '' @ error_string err)
               (set_scan s (logf InfoLevel (Name (mods g ! i)) ''Executing module'' (world g)))) \<rparr>)
     | None \<Rightarrow> set_pc i AtLoad (g \<lparr> world :=
          set_scan s (logf InfoLevel (Name (mods g ! i)) ''Executing module'' (world g)) \<rparr>))"
  using assms by (simp add: go_step_def Let_def split: option.splits)

lemma go_step_AtLoad:
  assumes "i < length (pcs g)" "i < length (mods g)" "pcs g ! i = AtLoad"
  shows "go_step i g = set_pc i (AtStore (ModulesExecuted (the_summary (world g)))) g"
  using assms by (simp add: go_step_def)

lemma go_step_AtStore:
  assumes "i < length (pcs g)" "i < length (mods g)" "pcs g ! i = AtStore executed"
  shows "go_step i g = set_pc i AtRelease (g \<lparr> world :=
             logf InfoLevel (Name (mods g ! i)) ''Module execution completed''
               (set_summary ((the_summary (world g)) \<lparr> ModulesExecuted := executed @ [Name (mods g ! i)] \<rparr>)
                  (world g)) \<rparr>)"
  using assms by (simp add: go_step_def Let_def)

lemma go_step_AtRelease:
  assumes "i < length (pcs g)" "i < length (mods g)" "pcs g ! i = AtRelease"
  shows "go_step i g = set_pc i (Finished None) (g \<lparr> sem := sem g - 1 \<rparr>)"
  using assms by (simp add: go_step_def)

lemma go_step_Finished:
  assumes "pcs g ! i = Finished r"
  shows "go_step i g = g"
  using assms by (simp add: go_step_def)

text \<open>
  Left alone, a goroutine's three steps after its admission do what \<open>executeModule\<close> does.
\<close>

lemma steps_agree_with_executeModule:
  assumes i: "i < length (pcs g)" "i < length (mods g)" and p: "pcs g ! i = AtRun"
  shows "world (go_step i (go_step i (go_step i g))) = snd (executeModule (world g) (mods g ! i))"
proof -
  let ?md = "mods g ! i"
  let ?w1 = "logf InfoLevel (Name ?md) ''Executing module'' (world g)"
  obtain r s where c: "call_module ?w1 ?md = (r, s)"
    by (cases "call_module ?w1 ?md")
  show ?thesis
  proof (cases r)
    case None
    let ?g1 = "set_pc i AtLoad (g \<lparr> world := set_scan s ?w1 \<rparr>)"
    have 1: "go_step i g = ?g1"
      using go_step_AtRun [OF i p c] None by simp
    have i1: "i < length (pcs ?g1)" "i < length (mods ?g1)" "pcs ?g1 ! i = AtLoad"
      using i by (simp_all add: set_pc_def)
    let ?g2 = "set_pc i (AtStore (ModulesExecuted (the_summary (world ?g1)))) ?g1"
    have 2: "go_step i ?g1 = ?g2"
      by (rule go_step_AtLoad [OF i1])
    have i2: "i < length (pcs ?g2)" "i < length (mods ?g2)"
      "pcs ?g2 ! i = AtStore (ModulesExecuted (the_summary (world ?g1)))"
      using i by (simp_all add: set_pc_def)
    show ?thesis
      unfolding 1 2 go_step_AtStore [OF i2]
      using c None by (simp add: executeModule_def Let_def set_pc_def)
  next
    case (Some err)
    let ?g1 = "set_pc i AtRelease (g \<lparr> world :=
          logf InfoLevel (Name ?md) ''Module execution completed''
            (logf ErrorLevel (Name ?md) (''Module execution failed: '' @ error_string err)
               (set_scan s ?w1)) \<rparr>)"
    have 1: "go_step i g = ?g1"
      using go_step_AtRun [OF i p c] Some by simp
    have i1: "i < length (pcs ?g1)" "i < length (mods ?g1)" "pcs ?g1 ! i = AtRelease"
      using i by (simp_all add: set_pc_def)
    let ?g2 = "set_pc i (Finished None) (?g1 \<lparr> sem := sem ?g1 - 1 \<rparr>)"
    have 2: "go_step i ?g1 = ?g2"
      by (rule go_step_AtRelease [OF i1])
    have 3: "go_step i ?g2 = ?g2"
      using i by (intro go_step_Finished [of _ _ None]) (simp add: set_pc_def)
    show ?thesis
      unfolding 1 2 3
      using c Some by (simp add: executeModule_def Let_def set_pc_def)
  qed
qed

lemma balanced_go_step:
  assumes "balanced g"
  shows "balanced (go_step i g)"
proof (cases "i < length (pcs g) \<and> i < length (mods g)")
  case False
  then show ?thesis using assms go_step_out [of i g] by simp
next
  case True
  then have i: "i < length (pcs g)" "i < length (mods g)" by simp_all
  from assms have b: "length (pcs g) = length (mods g)" "slots_held g = sem g" "sem g \<le> sem_capacity"
    by (simp_all add: balanced_def)
  have keep: "slots_held (set_pc i p (g \<lparr> world := w \<rparr>)) = slots_held g"
    if "holds_slot p" "holds_slot (pcs g ! i)" for p w
    using slots_set_pc [of i "g \<lparr> world := w \<rparr>" p] i that by simp
  show ?thesis
  proof (cases "pcs g ! i")
    case AtSelect
    have "slots_held (set_pc i AtRun (g \<lparr> sem := sem g + 1 \<rparr>)) = slots_held g + 1"
      using slots_set_pc [of i "g \<lparr> sem := sem g + 1 \<rparr>" AtRun] i AtSelect by simp
    with b assms show ?thesis
      by (simp add: go_step_AtSelect [OF i AtSelect] balanced_def)
  next
    case AtRun
    obtain r s where c: "call_module (logf InfoLevel (Name (mods g ! i)) ''Executing module'' (world g)) (mods g ! i) = (r, s)"
      by (cases "call_module (logf InfoLevel (Name (mods g ! i)) ''Executing module'' (world g)) (mods g ! i)")
    show ?thesis
      using b keep AtRun
      by (cases r) (simp_all add: go_step_AtRun [OF i AtRun c] balanced_def)
  next
    case AtLoad
    have "slots_held (set_pc i p g) = slots_held g" if "holds_slot p" for p
      using slots_set_pc [of i g p] i AtLoad that by simp
    then show ?thesis
      using b by (simp add: go_step_AtLoad [OF i AtLoad] balanced_def)
  next
    case (AtStore ex)
    show ?thesis
      using b keep AtStore by (simp add: go_step_AtStore [OF i AtStore] balanced_def)
  next
    case AtRelease
    have "slots_held (set_pc i (Finished None) (g \<lparr> sem := sem g - 1 \<rparr>)) + 1 = slots_held g"
      using slots_set_pc [of i "g \<lparr> sem := sem g - 1 \<rparr>" "Finished None"] i AtRelease by simp
    with b have "slots_held (set_pc i (Finished None) (g \<lparr> sem := sem g - 1 \<rparr>)) = sem g - 1"
      and "sem g - 1 \<le> sem_capacity"
      by arith+
    then show ?thesis
      using b by (simp add: go_step_AtRelease [OF i AtRelease] balanced_def)
  next
    case (Finished r)
    then show ?thesis using assms go_step_Finished [of g i r] by simp
  qed
qed

lemma balanced_go_abort:
  assumes "balanced g"
  shows "balanced (go_abort i g)"
proof (cases "i < length (pcs g) \<and> pcs g ! i = AtSelect")
  case False
  then show ?thesis using assms by (auto simp: go_abort_def)
next
  case True
  have "\<And>e r. slots_held (set_pc i (Finished r) (g \<lparr> first_err := e \<rparr>)) = slots_held g"
    using slots_set_pc [of i "g \<lparr> first_err := _ \<rparr>" "Finished _"] True by simp
  then show ?thesis
    using assms True by (simp add: go_abort_def balanced_def split: option.splits)
qed

lemma balanced_cancel: "balanced g \<Longrightarrow> balanced (cancel c g)"
  by (simp add: cancel_def balanced_def slots_held_def split: option.splits)

lemma balanced_do_event: "balanced g \<Longrightarrow> balanced (do_event e g)"
  by (cases e) (simp_all add: balanced_go_step balanced_go_abort balanced_cancel)

lemma balanced_run_events: "balanced g \<Longrightarrow> balanced (run_events schedule g)"
  unfolding run_events_def
  by (induction schedule arbitrary: g) (simp_all add: balanced_do_event)

lemma mods_do_event: "mods (do_event e g) = mods g"
proof (cases e)
  case (Step i)
  show ?thesis
  proof (cases "i < length (pcs g) \<and> i < length (mods g)")
    case False
    then show ?thesis using go_step_out [of i g] by (simp add: Step)
  next
    case True
    then show ?thesis
      by (simp add: Step go_step_def Let_def split: pc.splits prod.splits option.splits)
  qed
next
  case (Abort i)
  then show ?thesis by (simp add: go_abort_def split: option.splits)
next
  case (Cancel c)
  then show ?thesis by (simp add: cancel_def split: option.splits)
qed

lemma mods_run_events: "mods (run_events schedule g) = mods g"
  unfolding run_events_def
  by (induction schedule arbitrary: g) (simp_all add: mods_do_event)

lemma nth_set_pc: "i < length (pcs g) \<Longrightarrow> pcs (set_pc i p g) ! i = p"
  by (simp add: set_pc_def)

text \<open>
  C5. In every state the goroutines of a phase can reach, under any schedule, any
  cancellation and any configuration, at most three of them are between their send on
  \<open>sem\<close> and their receive from it, as many as there are tokens in the channel. A
  goroutine at its \<open>select\<close> is admitted when fewer than three slots are taken and
  stays where it is otherwise; once the context is done it can take the \<open>Done\<close>
  branch, and then it returns the context's error, the group's first error is set, and
  the scan and the log are as they were: the module has not run. With the context not
  done that branch is closed.
\<close>

theorem admission_pool_bound:
  assumes "g = run_events schedule (spawn activeModules w)"
  shows "slots_held g \<le> 3 \<and> slots_held g = sem g
    \<and> (i < length activeModules \<and> pcs g ! i = AtSelect \<longrightarrow>
         (sem g < 3 \<longrightarrow> pcs (do_event (Step i) g) ! i = AtRun
                          \<and> slots_held (do_event (Step i) g) = slots_held g + 1)
       \<and> (\<not> sem g < 3 \<longrightarrow> do_event (Step i) g = g)
       \<and> (ctx (world g) = Some c \<longrightarrow>
            pcs (do_event (Abort i) g) ! i = Finished (Some (ContextErr c))
            \<and> world (do_event (Abort i) g) = world g
            \<and> slots_held (do_event (Abort i) g) = slots_held g
            \<and> first_err (do_event (Abort i) g) \<noteq> None)
       \<and> (ctx (world g) = None \<longrightarrow> do_event (Abort i) g = g))"
proof -
  have bal: "balanced g"
    unfolding assms by (rule balanced_run_events) (rule balanced_spawn)
  then have b: "length (pcs g) = length (mods g)" "slots_held g = sem g" "sem g \<le> 3"
    by (simp_all add: balanced_def sem_capacity_def)
  have m: "mods g = activeModules"
    unfolding assms by (simp add: mods_run_events spawn_def)
  have waiting: "(sem g < 3 \<longrightarrow> pcs (do_event (Step i) g) ! i = AtRun
                          \<and> slots_held (do_event (Step i) g) = slots_held g + 1)
       \<and> (\<not> sem g < 3 \<longrightarrow> do_event (Step i) g = g)
       \<and> (ctx (world g) = Some c \<longrightarrow>
            pcs (do_event (Abort i) g) ! i = Finished (Some (ContextErr c))
            \<and> world (do_event (Abort i) g) = world g
            \<and> slots_held (do_event (Abort i) g) = slots_held g
            \<and> first_err (do_event (Abort i) g) \<noteq> None)
       \<and> (ctx (world g) = None \<longrightarrow> do_event (Abort i) g = g)"
    if i: "i < length activeModules" and s: "pcs g ! i = AtSelect"
  proof -
    from i b m have il: "i < length (pcs g)" "i < length (mods g)" by simp_all
    have st: "go_step i g = (if sem g < 3 then set_pc i AtRun (g \<lparr> sem := sem g + 1 \<rparr>) else g)"
      using go_step_AtSelect [OF il s] by (simp add: sem_capacity_def)
    have up: "slots_held (set_pc i AtRun (g \<lparr> sem := sem g + 1 \<rparr>)) = slots_held g + 1"
      using slots_set_pc [of i "g \<lparr> sem := sem g + 1 \<rparr>" AtRun] il s by simp
    have ab: "slots_held (set_pc i (Finished r) (g \<lparr> first_err := e \<rparr>)) = slots_held g" for r e
      using slots_set_pc [of i "g \<lparr> first_err := e \<rparr>" "Finished r"] il s by simp
    show ?thesis
      using il s st up ab
      by (auto simp: go_abort_def nth_set_pc split: option.splits)
  qed
  from b waiting show ?thesis by simp
qed

lemmas eval_defs = run_events_def spawn_def go_step_def go_abort_def cancel_def set_pc_def sem_capacity_def
  call_module_def example_world_def no_sandbox_def logf_def the_summary_def set_summary_def set_scan_def
  example_scan_def empty_summary_def Let_def Wait_def bleeding_edge_modules_def
  LLMFuzzerModule_def AutoPatchModule_def ShadowCloneModule_def DepDriftModule_def TimingMapModule_def
  BlueTeamModule_def placeholder_module_def

lemma full_pool_state:
  "pcs full_pool = [AtRun, AtRun, AtRun, AtSelect, AtSelect, AtSelect]"
  "sem full_pool = 3" "ctx (world full_pool) = Some Canceled"
  by (simp_all add: full_pool_def full_pool_schedule_def eval_defs)

theorem admission_pool_bound_witness:
  "slots_held full_pool = 3 \<and> pcs full_pool ! 3 = AtSelect \<and> \<not> sem full_pool < 3
   \<and> do_event (Step 3) full_pool = full_pool
   \<and> ctx (world full_pool) = Some Canceled
   \<and> pcs (do_event (Abort 3) full_pool) ! 3 = Finished (Some (ContextErr Canceled))
   \<and> world (do_event (Abort 3) full_pool) = world full_pool"
proof -
  have l: "(3::nat) < length bleeding_edge_modules"
    by (simp add: bleeding_edge_modules_def)
  show ?thesis
    using admission_pool_bound [OF full_pool_def, of 3 Canceled] l
    by (simp add: full_pool_state)
qed

lemma init_registry:
  "register_all bleeding_edge_modules empty_registry = Inr (registry_of bleeding_edge_modules)"
  by (simp add: bleeding_edge_modules_def empty_registry_def registry_of_def Register_def Let_def
      LLMFuzzerModule_def AutoPatchModule_def ShadowCloneModule_def DepDriftModule_def
      TimingMapModule_def BlueTeamModule_def placeholder_module_def)

lemma bleeding_survivors:
  "survivors (resolve (registry_of bleeding_edge_modules) ''bleeding-edge'') bleedingModules
     = bleeding_edge_modules"
  "prereq_warnings (resolve (registry_of bleeding_edge_modules) ''bleeding-edge'') bleedingModules = []"
  by (simp_all add: survivors_def prereq_warnings_def resolve_def build_moduleMap_def
      GetModulesByCategory_def registry_of_def bleedingModules_def bleeding_edge_modules_def
      LLMFuzzerModule_def AutoPatchModule_def ShadowCloneModule_def DepDriftModule_def
      TimingMapModule_def BlueTeamModule_def placeholder_module_def)

lemma race_run:
  "Wait (run_events race_schedule (spawn bleeding_edge_modules (example_world True [] [] Map.empty)))
     = Some None"
  "ModulesExecuted (the_summary (world (run_events race_schedule
       (spawn bleeding_edge_modules (example_world True [] [] Map.empty)))))
     = [''auto-patch'', ''shadow-clone'', ''dep-drift'', ''timing-map'', ''blue-team'']"
  "logger (orch (world (run_events race_schedule
       (spawn bleeding_edge_modules (example_world True [] [] Map.empty)))))
     = [Log InfoLevel ''llm-fuzzer'' ''Executing module'',
        Log InfoLevel ''auto-patch'' ''Executing module'',
        Log InfoLevel ''llm-fuzzer'' ''Module execution completed'',
        Log InfoLevel ''auto-patch'' ''Module execution completed'',
        Log InfoLevel ''shadow-clone'' ''Executing module'',
        Log InfoLevel ''shadow-clone'' ''Module execution completed'',
        Log InfoLevel ''dep-drift'' ''Executing module'',
        Log InfoLevel ''dep-drift'' ''Module execution completed'',
        Log InfoLevel ''timing-map'' ''Executing module'',
        Log InfoLevel ''timing-map'' ''Module execution completed'',
        Log InfoLevel ''blue-team'' ''Executing module'',
        Log InfoLevel ''blue-team'' ''Module execution completed'']"
  by (simp_all add: race_schedule_def eval_defs)

lemma only_context_errors:
  assumes "first_err g = None \<or> (\<exists>c. first_err g = Some (ContextErr c))"
  shows "first_err (run_events schedule g) = None
         \<or> (\<exists>c. first_err (run_events schedule g) = Some (ContextErr c))"
  using assms unfolding run_events_def
proof (induction schedule arbitrary: g)
  case Nil
  then show ?case by simp
next
  case (Cons e es)
  have "first_err (do_event e g) = None \<or> (\<exists>c. first_err (do_event e g) = Some (ContextErr c))"
  proof (cases e)
    case (Step i)
    have "first_err (go_step i g) = first_err g"
    proof (cases "i < length (pcs g) \<and> i < length (mods g)")
      case False
      then show ?thesis using go_step_out [of i g] by simp
    next
      case True
      then show ?thesis
        by (simp add: go_step_def Let_def split: pc.splits prod.splits option.splits)
    qed
    with Cons.prems show ?thesis by (simp add: Step)
  next
    case (Abort i)
    with Cons.prems show ?thesis by (auto simp: go_abort_def split: option.splits)
  next
    case (Cancel c)
    with Cons.prems show ?thesis by (simp add: cancel_def split: option.splits)
  qed
  from Cons.IH [OF this] show ?case by simp
qed

lemma executeModules_only_context_errors:
  "fst (executeModules registry schedule names category w) = Some (Some err) \<Longrightarrow> \<exists>c. err = ContextErr c"
  using only_context_errors [of "spawn (survivors (resolve registry category) names)
      (add_logs (prereq_warnings (resolve registry category) names) w)" schedule]
  by (auto simp: executeModules_char resolve_def Let_def Wait_def spawn_def split: if_splits)

lemma executeModule_alone:
  "fst (executeModule w md) = None"
  "fst (call_module (logf InfoLevel (Name md) ''Executing module'' w) md) = Some err \<Longrightarrow>
     ModulesExecuted (the_summary (snd (executeModule w md)))
       = ModulesExecuted (Summary (Results (snd (call_module (logf InfoLevel (Name md) ''Executing module'' w) md))))"
  "fst (call_module (logf InfoLevel (Name md) ''Executing module'' w) md) = None \<Longrightarrow>
     ModulesExecuted (the_summary (snd (executeModule w md)))
       = ModulesExecuted (Summary (Results (snd (call_module (logf InfoLevel (Name md) ''Executing module'' w) md))))
         @ [Name md]"
  by (auto simp: executeModule_def Let_def the_summary_def set_summary_def set_scan_def logf_def
      split: prod.splits option.splits)

text \<open>
  C3. A module's failure is logged and swallowed: \<open>executeModule\<close> always returns
  nil, only a success reaches the append to \<open>ModulesExecuted\<close>, and the only errors
  \<open>executeModules\<close> returns are the context's (the three lemmas above). The append
  itself is a read and a later store with no lock held in between, unlike \<open>AddHost\<close>,
  \<open>AddVulnerability\<close> and \<open>AddPatch\<close>. With the bleeding-edge flag on and the six
  modules that \<open>init\<close> registers, \<open>race_schedule\<close> lets \<open>llm-fuzzer\<close> and
  \<open>auto-patch\<close> both read the empty slice before either stores: the phase returns nil,
  the log shows \<open>llm-fuzzer\<close> executed and completed with no failure, and its name is
  missing from \<open>ModulesExecuted\<close>.
\<close>

theorem lost_module_name:
  "register_all bleeding_edge_modules empty_registry = Inr (registry_of bleeding_edge_modules)
   \<and> cfg_BleedingEdge (config (orch (example_world True [] [] Map.empty)))
   \<and> fst (runBleedingEdgePhase (registry_of bleeding_edge_modules) race_schedule
            (example_world True [] [] Map.empty)) = Some None
   \<and> ModulesExecuted (the_summary (snd (runBleedingEdgePhase (registry_of bleeding_edge_modules)
            race_schedule (example_world True [] [] Map.empty))))
       = [''auto-patch'', ''shadow-clone'', ''dep-drift'', ''timing-map'', ''blue-team'']
   \<and> logger (orch (snd (runBleedingEdgePhase (registry_of bleeding_edge_modules)
            race_schedule (example_world True [] [] Map.empty))))
       = [Log InfoLevel ''llm-fuzzer'' ''Executing module'',
          Log InfoLevel ''auto-patch'' ''Executing module'',
          Log InfoLevel ''llm-fuzzer'' ''Module execution completed'',
          Log InfoLevel ''auto-patch'' ''Module execution completed'',
          Log InfoLevel ''shadow-clone'' ''Executing module'',
          Log InfoLevel ''shadow-clone'' ''Module execution completed'',
          Log InfoLevel ''dep-drift'' ''Executing module'',
          Log InfoLevel ''dep-drift'' ''Module execution completed'',
          Log InfoLevel ''timing-map'' ''Executing module'',
          Log InfoLevel ''timing-map'' ''Module execution completed'',
          Log InfoLevel ''blue-team'' ''Executing module'',
          Log InfoLevel ''blue-team'' ''Module execution completed'']"
proof -
  have f: "cfg_BleedingEdge (config (orch (example_world True [] [] Map.empty)))"
    by (simp add: example_world_def example_config_def)
  have e: "runBleedingEdgePhase (registry_of bleeding_edge_modules) race_schedule
             (example_world True [] [] Map.empty)
           = (Wait (run_events race_schedule (spawn bleeding_edge_modules (example_world True [] [] Map.empty))),
              world (run_events race_schedule (spawn bleeding_edge_modules (example_world True [] [] Map.empty))))"
    using f bleeding_survivors
    by (simp add: runBleedingEdgePhase_def executeModules_char resolve_def Let_def add_logs_Nil
        bleeding_edge_modules_def)
  show ?thesis
    unfolding e using f init_registry race_run by simp
qed

end
